theory Spec2Isabelle
  imports Complex_Main "HOL-Library.AList"
begin

section \<open>JavaScript values\<close>

text \<open>
  Configuration documents are arbitrary JSON-like mappings.  A plain object is an
  association list of own properties, an array is a list.  Numbers are rationals (the
  numbers of this program are decimal literals that are only stored, never computed with).
  Property order and the prototype chain of plain objects are not modelled.
\<close>

datatype jsval =
    JUndefined
  | JNull
  | JBool bool
  | JNum rat
  | JStr string
  | JArr "jsval list"
  | JObj "(string \<times> jsval) list"

type_synonym jobj = "(string \<times> jsval) list"

datatype js_error = TypeError | RemoteError string | CallbackError | StorageError

text \<open>Truthiness, as used by \<^verbatim>\<open>if (x)\<close>, \<^verbatim>\<open>!x\<close> and \<^verbatim>\<open>x || y\<close>.\<close>

fun truthy :: "jsval \<Rightarrow> bool" where
  "truthy JUndefined = False"
| "truthy JNull = False"
| "truthy (JBool b) = b"
| "truthy (JNum n) = (n \<noteq> 0)"
| "truthy (JStr s) = (s \<noteq> [])"
| "truthy (JArr xs) = True"
| "truthy (JObj ps) = True"

text \<open>\<^verbatim>\<open>obj.p\<close> on a plain object: the own property, or \<^verbatim>\<open>undefined\<close>.\<close>

definition obj_get :: "jobj \<Rightarrow> string \<Rightarrow> jsval" where
  "obj_get ob p = (case map_of ob p of None \<Rightarrow> JUndefined | Some v \<Rightarrow> v)"

text \<open>
  \<^verbatim>\<open>item.key\<close> on an arbitrary value: reading a property of \<^verbatim>\<open>null\<close> or
  \<^verbatim>\<open>undefined\<close> throws a TypeError; booleans, numbers, strings and arrays have no
  property of that name.
\<close>

fun get_key :: "jsval \<Rightarrow> js_error + jsval" where
  "get_key JUndefined = Inl TypeError"
| "get_key JNull = Inl TypeError"
| "get_key (JObj ps) = Inr (obj_get ps ''key'')"
| "get_key v = Inr JUndefined"

text \<open>
  \<^verbatim>\<open>Array.prototype.find\<close>: the first element the callback accepts,
  \<^verbatim>\<open>undefined\<close> when there is none; an exception of the callback propagates.
\<close>

fun js_find :: "(jsval \<Rightarrow> js_error + bool) \<Rightarrow> jsval list \<Rightarrow> js_error + jsval" where
  "js_find p [] = Inr JUndefined"
| "js_find p (x # xs) =
     (case p x of
        Inl e \<Rightarrow> Inl e
      | Inr b \<Rightarrow> if b then Inr x else js_find p xs)"

text \<open>Object spread \<^verbatim>\<open>{ ...a, ...b }\<close>: the properties of \<open>b\<close> are written over \<open>a\<close> in turn.\<close>

definition js_spread :: "jobj \<Rightarrow> jobj \<Rightarrow> jobj" where
  "js_spread a b = fold (\<lambda>(k, v). AList.update k v) b a"

text \<open>
  A JavaScript \<^verbatim>\<open>Map\<close> is an association list in insertion order:
  \<^verbatim>\<open>get\<close> is \<^const>\<open>map_of\<close>, \<^verbatim>\<open>set\<close> is \<^const>\<open>AList.update\<close> (overwrite in place
  or append), \<^verbatim>\<open>delete\<close> is \<^const>\<open>AList.delete\<close>, \<^verbatim>\<open>clear\<close> gives the empty list.
\<close>

subsection \<open>Strings of numbers\<close>

definition digits36 :: string where
  "digits36 = ''0123456789abcdefghijklmnopqrstuvwxyz''"

function to_base36_aux :: "nat \<Rightarrow> string \<Rightarrow> string" where
  "to_base36_aux n acc =
     (if n < 36 then (digits36 ! n) # acc
      else to_base36_aux (n div 36) ((digits36 ! (n mod 36)) # acc))"
  by pat_completeness auto
termination
  by (relation "measure (\<lambda>(n, acc). n)") auto

declare to_base36_aux.simps [simp del]

text \<open>\<^verbatim>\<open>n.toString(36)\<close> for a non-negative integer \<open>n\<close>.\<close>

definition to_base36 :: "nat \<Rightarrow> string" where
  "to_base36 n = to_base36_aux n []"

text \<open>\<^verbatim>\<open>s.substr(start, len)\<close> for \<open>start \<ge> 0\<close>, and \<^verbatim>\<open>s.substr(-k)\<close>.\<close>

definition substr :: "string \<Rightarrow> nat \<Rightarrow> nat \<Rightarrow> string" where
  "substr s start len = take len (drop start s)"

definition substr_last :: "string \<Rightarrow> nat \<Rightarrow> string" where
  "substr_last s k = drop (length s - k) s"

text \<open>
  \<^verbatim>\<open>Math.random().toString(36)\<close> is not computed here (it is a floating-point
  conversion); its result is an input.  For a number in \<open>[0, 1)\<close> it is \<^verbatim>\<open>0\<close> or
  \<^verbatim>\<open>0.\<close> followed by base-36 digits.
\<close>

definition is_random36 :: "string \<Rightarrow> bool" where
  "is_random36 r \<longleftrightarrow>
     r = ''0'' \<or> (take 2 r = ''0.'' \<and> list_all (\<lambda>c. c \<in> set digits36) (drop 2 r))"

section \<open>ConfigManager\<close>

record cache_entry =
  data :: jobj
  timestamp :: nat

datatype db_op = DbGet string | DbSet string jobj | DbUpdate string jobj

text \<open>
  A registered callback is known by an identifier and by whether it throws when called.
  Callbacks are observers: they do not call back into the manager.
\<close>

record callback =
  cb_id :: nat
  cb_throws :: bool

text \<open>
  The fields of the class, followed by two traces of what the instance did to its
  environment: the requests sent to the remote document store, in order, and the
  callback invocations (callback, event, data), in order.  Console output is not modelled.
\<close>

record ConfigManager =
  configs :: "(string \<times> jobj) list"
  cache :: "(string \<times> cache_entry) list"
  isInitialized :: bool
  callbacks :: "callback list"
  cacheTimeout :: int
  sessionId :: string
  db_log :: "db_op list"
  cb_log :: "(nat \<times> string \<times> jsval) list"

text \<open>
  \<^verbatim>\<open>generateSessionId\<close>; \<open>r\<close> is \<^verbatim>\<open>Math.random().toString(36)\<close> and \<open>now\<close> is
  \<^verbatim>\<open>Date.now()\<close>.
\<close>

definition generateSessionId :: "string \<Rightarrow> nat \<Rightarrow> string" where
  "generateSessionId r now = ''sess_'' @ substr r 2 12 @ to_base36 now"

definition constructor :: "string \<Rightarrow> nat \<Rightarrow> ConfigManager" where
  "constructor r now =
     \<lparr> configs = [], cache = [], isInitialized = False, callbacks = [],
       cacheTimeout = 5 * 60 * 1000, sessionId = generateSessionId r now,
       db_log = [], cb_log = [] \<rparr>"

text \<open>
  \<^verbatim>\<open>generatePublicId\<close>; the prefix table is looked up with the literal type names
  the program passes.
\<close>

definition generatePublicId :: "string \<Rightarrow> string \<Rightarrow> nat \<Rightarrow> string" where
  "generatePublicId type r now =
     (case map_of [(''pack'', ''pack_''), (''city'', ''city_''), (''user'', ''user_''),
                   (''vendor'', ''vend_''), (''region'', ''reg_'')] type of
        Some p \<Rightarrow> p
      | None \<Rightarrow> ''item_'')
     @ substr r 2 8 @ substr_last (to_base36 now) 4"

text \<open>
  \<^verbatim>\<open>getDefaultConfig\<close>.  The object literal is built in full on every call, so the
  thirteen identifiers are generated whatever the type asked for; \<open>rnd i\<close> and \<open>clk i\<close>
  are the values of \<^verbatim>\<open>Math.random().toString(36)\<close> and \<^verbatim>\<open>Date.now()\<close> in the
  \<open>i\<close>-th call of \<^verbatim>\<open>generatePublicId\<close>.  The three icons outside ASCII are given
  by their UTF-8 bytes.  The table is looked up by own property: a type that names an
  inherited property of objects (such as \<^verbatim>\<open>constructor\<close>), for which the program
  returns that property, is outside the model.
\<close>

definition defaults :: "(nat \<Rightarrow> string) \<Rightarrow> (nat \<Rightarrow> nat) \<Rightarrow> (string \<times> jobj) list" where
  "defaults rnd clk =
    [(''cities'',
       [(''items'', JArr
          [JObj [(''id'', JStr (generatePublicId ''city'' (rnd 0) (clk 0))),
                 (''key'', JStr ''boston''),
                 (''name'', JStr ''Boston''),
                 (''state'', JStr ''MA''),
                 (''coordinates'', JObj [(''lat'', JNum 42.3601), (''lng'', JNum (- 71.0589))]),
                 (''isActive'', JBool True),
                 (''priority'', JNum 1),
                 (''metroArea'', JStr ''greater-boston'')],
           JObj [(''id'', JStr (generatePublicId ''city'' (rnd 1) (clk 1))),
                 (''key'', JStr ''providence''),
                 (''name'', JStr ''Providence''),
                 (''state'', JStr ''RI''),
                 (''coordinates'', JObj [(''lat'', JNum 41.8240), (''lng'', JNum (- 71.4128))]),
                 (''isActive'', JBool True),
                 (''priority'', JNum 2),
                 (''metroArea'', JStr ''providence-metro'')],
           JObj [(''id'', JStr (generatePublicId ''city'' (rnd 2) (clk 2))),
                 (''key'', JStr ''cambridge''),
                 (''name'', JStr ''Cambridge''),
                 (''state'', JStr ''MA''),
                 (''coordinates'', JObj [(''lat'', JNum 42.3736), (''lng'', JNum (- 71.1097))]),
                 (''isActive'', JBool True),
                 (''priority'', JNum 3),
                 (''metroArea'', JStr ''greater-boston'')]])]),
     (''product-types'',
       [(''items'', JArr
          [JObj [(''id'', JStr (generatePublicId ''pack'' (rnd 3) (clk 3))),
                 (''key'', JStr ''indica-pack''),
                 (''name'', JStr ''Indica Pack''),
                 (''category'', JStr ''cannabis''),
                 (''isActive'', JBool True),
                 (''searchTerms'', JArr [JStr ''indica'', JStr ''relaxing'', JStr ''nighttime'',
                                         JStr ''chill'']),
                 (''icon'', JStr [CHR 0xF0, CHR 0x9F, CHR 0x8C, CHR 0x99])],
           JObj [(''id'', JStr (generatePublicId ''pack'' (rnd 4) (clk 4))),
                 (''key'', JStr ''sativa-pack''),
                 (''name'', JStr ''Sativa Pack''),
                 (''category'', JStr ''cannabis''),
                 (''isActive'', JBool True),
                 (''searchTerms'', JArr [JStr ''sativa'', JStr ''energizing'', JStr ''daytime'',
                                         JStr ''focus'']),
                 (''icon'', JStr [CHR 0xE2, CHR 0x98, CHR 0x80, CHR 0xEF, CHR 0xB8, CHR 0x8F])],
           JObj [(''id'', JStr (generatePublicId ''pack'' (rnd 5) (clk 5))),
                 (''key'', JStr ''hybrid-pack''),
                 (''name'', JStr ''Hybrid Pack''),
                 (''category'', JStr ''cannabis''),
                 (''isActive'', JBool True),
                 (''searchTerms'', JArr [JStr ''hybrid'', JStr ''balanced'', JStr ''mixed'',
                                         JStr ''versatile'']),
                 (''icon'', JStr [CHR 0xF0, CHR 0x9F, CHR 0x8C, CHR 0xBF])]])]),
     (''vendor-categories'',
       [(''items'', JArr
          [JObj [(''id'', JStr (generatePublicId ''vendor'' (rnd 6) (clk 6))),
                 (''key'', JStr ''high-tolerance''),
                 (''name'', JStr ''High Tolerance''),
                 (''color'', JStr ''#3498db''),
                 (''icon'', JStr ''H''),
                 (''isActive'', JBool True)],
           JObj [(''id'', JStr (generatePublicId ''vendor'' (rnd 7) (clk 7))),
                 (''key'', JStr ''bozo-headstash''),
                 (''name'', JStr ''Bozo Headstash''),
                 (''color'', JStr ''#8e44ad''),
                 (''icon'', JStr ''B''),
                 (''isActive'', JBool True)],
           JObj [(''id'', JStr (generatePublicId ''vendor'' (rnd 8) (clk 8))),
                 (''key'', JStr ''deep-fried''),
                 (''name'', JStr ''Deep Fried''),
                 (''color'', JStr ''#f39c12''),
                 (''icon'', JStr ''D''),
                 (''isActive'', JBool True)],
           JObj [(''id'', JStr (generatePublicId ''vendor'' (rnd 9) (clk 9))),
                 (''key'', JStr ''gumbo''),
                 (''name'', JStr ''Gumbo''),
                 (''color'', JStr ''#e74c3c''),
                 (''icon'', JStr ''G''),
                 (''isActive'', JBool True)],
           JObj [(''id'', JStr (generatePublicId ''vendor'' (rnd 10) (clk 10))),
                 (''key'', JStr ''other''),
                 (''name'', JStr ''Other''),
                 (''color'', JStr ''#95a5a6''),
                 (''icon'', JStr ''O''),
                 (''isActive'', JBool True)]])]),
     (''metro-areas'',
       [(''items'', JArr
          [JObj [(''id'', JStr (generatePublicId ''region'' (rnd 11) (clk 11))),
                 (''key'', JStr ''greater-boston''),
                 (''name'', JStr ''Greater Boston''),
                 (''center'', JObj [(''lat'', JNum 42.3601), (''lng'', JNum (- 71.0589))]),
                 (''radius'', JNum 25),
                 (''cities'', JArr [JStr ''boston'', JStr ''cambridge'', JStr ''somerville'']),
                 (''deliveryRadius'', JNum 15),
                 (''isActive'', JBool True)],
           JObj [(''id'', JStr (generatePublicId ''region'' (rnd 12) (clk 12))),
                 (''key'', JStr ''providence-metro''),
                 (''name'', JStr ''Providence Metro''),
                 (''center'', JObj [(''lat'', JNum 41.8240), (''lng'', JNum (- 71.4128))]),
                 (''radius'', JNum 20),
                 (''cities'', JArr [JStr ''providence'', JStr ''cranston'', JStr ''warwick'']),
                 (''deliveryRadius'', JNum 12),
                 (''isActive'', JBool True)]])]),
     (''ui-strings'',
       [(''searchPlaceholders'', JArr
          [JStr ''Search packs in {cityName}...'',
           JStr ''Find {productType} near you...'',
           JStr ''Browse local packs...'',
           JStr ''What are you looking for?'',
           JStr ''Discover packs in your area...'']),
        (''locationMessages'', JArr
          [JStr ''Detecting your location in {regionName}...'',
           JStr ''Found {packCount} packs near you'',
           JStr ''Searching {cityName} area...'',
           JStr ''Loading packs in your region...'']),
        (''personalizedPlaceholders'', JObj
          [(''returning_user'', JStr ''Welcome back! Search your favorites...''),
           (''first_time'', JStr ''Discover packs in your area...''),
           (''mobile'', JStr ''Tap to search nearby packs''),
           (''desktop'', JStr ''Search packs, cities, types...''),
           (''evening'', JStr ''Find evening packs near you...''),
           (''morning'', JStr ''Browse morning selections...'')]),
        (''errorMessages'', JObj
          [(''location_denied'', JStr ''Enable location for better results''),
           (''no_results'', JStr ''No packs found in this area''),
           (''connection_error'', JStr ''Connection issue - try again''),
           (''loading_error'', JStr ''Unable to load content'')])]),
     (''region-settings'',
       [(''defaultRegion'', JStr ''northeast''),
        (''fallbackLocation'', JObj [(''lat'', JNum 41.8240), (''lng'', JNum (- 71.4128))]),
        (''maxSearchRadius'', JNum 50),
        (''cacheTimeout'', JNum 300000),
        (''privacySettings'', JObj
          [(''fuzzyLocationRadius'', JNum 0.01),
           (''hideExactCoordinates'', JBool True),
           (''sessionTimeout'', JNum 1800000)])])]"

definition getDefaultConfig :: "(nat \<Rightarrow> string) \<Rightarrow> (nat \<Rightarrow> nat) \<Rightarrow> string \<Rightarrow> jobj" where
  "getDefaultConfig rnd clk type =
     (case map_of (defaults rnd clk) type of Some d \<Rightarrow> d | None \<Rightarrow> [])"

text \<open>
  \<^verbatim>\<open>notifyCallbacks\<close>: every callback is called in registration order inside its own
  \<^verbatim>\<open>try\<close>; what a callback throws is caught (and only logged), so the loop goes on.
\<close>

definition call_callback :: "callback \<Rightarrow> string \<Rightarrow> jsval \<Rightarrow> js_error + unit" where
  "call_callback cb event d = (if cb_throws cb then Inl CallbackError else Inr ())"

definition notify_one :: "string \<Rightarrow> jsval \<Rightarrow> callback \<Rightarrow> ConfigManager \<Rightarrow> ConfigManager" where
  "notify_one event d cb s =
     (let s' = s\<lparr> cb_log := cb_log s @ [(cb_id cb, event, d)] \<rparr>
      in (case call_callback cb event d of Inl error \<Rightarrow> s' | Inr u \<Rightarrow> s'))"

definition notifyCallbacks :: "ConfigManager \<Rightarrow> string \<Rightarrow> jsval \<Rightarrow> ConfigManager" where
  "notifyCallbacks s event d = fold (notify_one event d) (callbacks s) s"

definition onConfigUpdate :: "ConfigManager \<Rightarrow> callback \<Rightarrow> ConfigManager" where
  "onConfigUpdate s cb = s\<lparr> callbacks := callbacks s @ [cb] \<rparr>"

definition clearCache :: "ConfigManager \<Rightarrow> ConfigManager" where
  "clearCache s = s\<lparr> cache := [] \<rparr>"

text \<open>
  \<^verbatim>\<open>getConfig\<close>: \<^verbatim>\<open>this.configs.get(type) || {}\<close>.  Every stored value is an object,
  hence truthy, so the right operand is taken exactly when the type has no entry.
\<close>

definition getConfig :: "ConfigManager \<Rightarrow> string \<Rightarrow> jobj" where
  "getConfig s type = (case map_of (configs s) type of Some v \<Rightarrow> v | None \<Rightarrow> [])"

text \<open>
  \<^verbatim>\<open>getConfigItem\<close>.  Calling \<^verbatim>\<open>find\<close> on a truthy value that is not an array is
  a TypeError.  The key is a string, so \<^verbatim>\<open>item.key === key\<close> holds exactly when
  \<^verbatim>\<open>item.key\<close> is that string.
\<close>

definition getConfigItem :: "ConfigManager \<Rightarrow> string \<Rightarrow> string \<Rightarrow> js_error + jsval" where
  "getConfigItem s type k =
     (let config = getConfig s type;
          items = obj_get config ''items''
      in if truthy items then
           (case items of
              JArr xs \<Rightarrow>
                js_find (\<lambda>item. case get_key item of
                                   Inl e \<Rightarrow> Inl e
                                 | Inr v \<Rightarrow> Inr (v = JStr k)) xs
            | _ \<Rightarrow> Inl TypeError)
         else Inr JNull)"

text \<open>
  \<^verbatim>\<open>createDefaultConfig\<close>: one \<^verbatim>\<open>set\<close> request; its failure is caught, so the
  function returns normally either way.
\<close>

definition createDefaultConfig ::
  "ConfigManager \<Rightarrow> string \<Rightarrow> jobj \<Rightarrow> js_error + unit \<Rightarrow> (js_error + unit) \<times> ConfigManager" where
  "createDefaultConfig s type d reply =
     (let s1 = s\<lparr> db_log := db_log s @ [DbSet type d] \<rparr>
      in (case reply of Inl e \<Rightarrow> (Inr (), s1) | Inr u \<Rightarrow> (Inr (), s1)))"

text \<open>
  What one call of \<^verbatim>\<open>loadConfigType\<close> receives from outside: the clock at the cache
  test, the outcome of the \<^verbatim>\<open>get\<close> request (rejected, or a snapshot: \<open>None\<close> when
  \<^verbatim>\<open>snapshot.exists\<close> is false, else \<^verbatim>\<open>snapshot.data()\<close>), the outcome of the
  \<^verbatim>\<open>set\<close> request of \<^verbatim>\<open>createDefaultConfig\<close>, the clock when the entry is
  cached, and the inputs of the identifier generator.  The call is taken as one step:
  nothing else touches the instance while it awaits.
\<close>

record load_env =
  now_check :: nat
  get_reply :: "js_error + jobj option"
  set_reply :: "js_error + unit"
  now_store :: nat
  rand36 :: "nat \<Rightarrow> string"
  clock :: "nat \<Rightarrow> nat"

definition cacheKey :: "string \<Rightarrow> string \<Rightarrow> string" where
  "cacheKey type sid = ''config_'' @ type @ ''_'' @ sid"

text \<open>\<^verbatim>\<open>cached && Date.now() - cached.timestamp < this.cacheTimeout\<close>\<close>

definition cache_hit :: "ConfigManager \<Rightarrow> string \<Rightarrow> nat \<Rightarrow> cache_entry option" where
  "cache_hit s type now =
     (case map_of (cache s) (cacheKey type (sessionId s)) of
        None \<Rightarrow> None
      | Some cached \<Rightarrow>
          if int now - int (timestamp cached) < cacheTimeout s then Some cached else None)"

text \<open>The end of the \<^verbatim>\<open>try\<close> block: cache the data, publish it, notify, return it.\<close>

definition cache_and_publish ::
  "ConfigManager \<Rightarrow> string \<Rightarrow> jobj \<Rightarrow> nat \<Rightarrow> (js_error + jobj) \<times> ConfigManager" where
  "cache_and_publish s type d now =
     (let s1 = s\<lparr> cache := AList.update (cacheKey type (sessionId s))
                               \<lparr> data = d, timestamp = now \<rparr> (cache s) \<rparr>;
          s2 = s1\<lparr> configs := AList.update type d (configs s1) \<rparr>;
          s3 = notifyCallbacks s2 ''configLoaded'' (JObj [(''type'', JStr type), (''data'', JObj d)])
      in (Inr d, s3))"

text \<open>The \<^verbatim>\<open>try\<close> block of \<^verbatim>\<open>loadConfigType\<close>; \<open>Inl\<close> is a thrown error.\<close>

definition loadConfigType_try ::
  "ConfigManager \<Rightarrow> string \<Rightarrow> load_env \<Rightarrow> (js_error + jobj) \<times> ConfigManager" where
  "loadConfigType_try s type env =
     (let s1 = s\<lparr> db_log := db_log s @ [DbGet type] \<rparr>
      in (case get_reply env of
            Inl e \<Rightarrow> (Inl e, s1)
          | Inr snapshot \<Rightarrow>
              (case snapshot of
                 Some d \<Rightarrow> cache_and_publish s1 type d (now_store env)
               | None \<Rightarrow>
                   (let d = getDefaultConfig (rand36 env) (clock env) type
                    in (case createDefaultConfig s1 type d (set_reply env) of
                          (Inl e, s2) \<Rightarrow> (Inl e, s2)
                        | (Inr u, s2) \<Rightarrow> cache_and_publish s2 type d (now_store env))))))"

text \<open>\<^verbatim>\<open>loadConfigType\<close>: the cache test, then the \<^verbatim>\<open>try\<close> block and its handler.\<close>

definition loadConfigType ::
  "ConfigManager \<Rightarrow> string \<Rightarrow> load_env \<Rightarrow> (js_error + jobj) \<times> ConfigManager" where
  "loadConfigType s type env =
     (case cache_hit s type (now_check env) of
        Some cached \<Rightarrow>
          (Inr (data cached), s\<lparr> configs := AList.update type (data cached) (configs s) \<rparr>)
      | None \<Rightarrow>
          (case loadConfigType_try s type env of
             (Inr d, s') \<Rightarrow> (Inr d, s')
           | (Inl error, s') \<Rightarrow>
               (let fallback = getDefaultConfig (rand36 env) (clock env) type
                in (Inr fallback, s'\<lparr> configs := AList.update type fallback (configs s') \<rparr>))))"

text \<open>
  \<^verbatim>\<open>updateConfig\<close>; \<open>reply\<close> is the outcome of the remote \<^verbatim>\<open>update\<close> request.
\<close>

definition updateConfig_try ::
  "ConfigManager \<Rightarrow> string \<Rightarrow> jobj \<Rightarrow> js_error + unit \<Rightarrow> (js_error + bool) \<times> ConfigManager" where
  "updateConfig_try s type d reply =
     (let s1 = s\<lparr> db_log := db_log s @ [DbUpdate type d] \<rparr>
      in (case reply of
            Inl e \<Rightarrow> (Inl e, s1)
          | Inr u \<Rightarrow>
              (let s2 = s1\<lparr> configs := AList.update type (js_spread (getConfig s1 type) d)
                                           (configs s1) \<rparr>;
                   s3 = s2\<lparr> cache := AList.delete (cacheKey type (sessionId s2)) (cache s2) \<rparr>;
                   s4 = notifyCallbacks s3 ''configUpdated''
                          (JObj [(''type'', JStr type), (''data'', JObj d)])
               in (Inr True, s4))))"

definition updateConfig ::
  "ConfigManager \<Rightarrow> string \<Rightarrow> jobj \<Rightarrow> js_error + unit \<Rightarrow> (js_error + bool) \<times> ConfigManager" where
  "updateConfig s type d reply =
     (case updateConfig_try s type d reply of
        (Inr b, s') \<Rightarrow> (Inr b, s')
      | (Inl error, s') \<Rightarrow> (Inr False, s'))"

subsection \<open>loadAllConfigs: six loads in flight at once\<close>

text \<open>
  \<^verbatim>\<open>loadAllConfigs\<close> calls \<^verbatim>\<open>loadConfigType\<close> for every type before it awaits
  anything, so up to six calls are suspended at the same time and resume in the order in
  which their requests settle.  A call is suspended at its \<^verbatim>\<open>get\<close> request, at the
  \<^verbatim>\<open>set\<close> request of \<^verbatim>\<open>createDefaultConfig\<close>, or it has settled with a result.
\<close>

datatype load_status = AwaitGet | AwaitSet jobj | Settled "js_error + jobj"

text \<open>From the call to the first \<^verbatim>\<open>await\<close>: the cache test and the \<^verbatim>\<open>get\<close> request.\<close>

definition load_start :: "ConfigManager \<Rightarrow> string \<Rightarrow> nat \<Rightarrow> load_status \<times> ConfigManager" where
  "load_start s type now =
     (case cache_hit s type now of
        Some cached \<Rightarrow>
          (Settled (Inr (data cached)),
           s\<lparr> configs := AList.update type (data cached) (configs s) \<rparr>)
      | None \<Rightarrow> (AwaitGet, s\<lparr> db_log := db_log s @ [DbGet type] \<rparr>))"

text \<open>
  Resumption when the \<^verbatim>\<open>get\<close> request settles: the handler on rejection, the rest of
  the \<^verbatim>\<open>try\<close> block for an existing document, the \<^verbatim>\<open>set\<close> request otherwise.
\<close>

definition load_on_get ::
  "ConfigManager \<Rightarrow> string \<Rightarrow> load_env \<Rightarrow> load_status \<times> ConfigManager" where
  "load_on_get s type env =
     (case get_reply env of
        Inl error \<Rightarrow>
          (let fallback = getDefaultConfig (rand36 env) (clock env) type
           in (Settled (Inr fallback), s\<lparr> configs := AList.update type fallback (configs s) \<rparr>))
      | Inr snapshot \<Rightarrow>
          (case snapshot of
             Some d \<Rightarrow>
               (case cache_and_publish s type d (now_store env) of (r, s') \<Rightarrow> (Settled r, s'))
           | None \<Rightarrow>
               (let d = getDefaultConfig (rand36 env) (clock env) type
                in (AwaitSet d, s\<lparr> db_log := db_log s @ [DbSet type d] \<rparr>))))"

text \<open>
  Resumption when the \<^verbatim>\<open>set\<close> request settles: \<^verbatim>\<open>createDefaultConfig\<close> returns
  normally whatever the outcome, and the \<^verbatim>\<open>try\<close> block runs to its end.
\<close>

definition load_on_set ::
  "ConfigManager \<Rightarrow> string \<Rightarrow> jobj \<Rightarrow> load_env \<Rightarrow> load_status \<times> ConfigManager" where
  "load_on_set s type d env =
     (case set_reply env of
        Inl error \<Rightarrow>
          (case cache_and_publish s type d (now_store env) of (r, s') \<Rightarrow> (Settled r, s'))
      | Inr u \<Rightarrow>
          (case cache_and_publish s type d (now_store env) of (r, s') \<Rightarrow> (Settled r, s')))"

definition configTypes :: "string list" where
  "configTypes = [''cities'', ''product-types'', ''vendor-categories'', ''metro-areas'',
                  ''ui-strings'', ''region-settings'']"

text \<open>
  \<^verbatim>\<open>configTypes.map(type => this.loadConfigType(type))\<close>: the calls start in list
  order; \<open>envs type\<close> is what the call for \<open>type\<close> receives from outside.
\<close>

fun start_all ::
  "ConfigManager \<Rightarrow> (string \<Rightarrow> load_env) \<Rightarrow> string list \<Rightarrow> (string \<times> load_status) list \<times> ConfigManager"
  where
  "start_all s envs [] = ([], s)"
| "start_all s envs (type # types) =
     (case load_start s type (now_check (envs type)) of
        (st, s1) \<Rightarrow>
          (case start_all s1 envs types of (tasks, s2) \<Rightarrow> ((type, st) # tasks, s2)))"

text \<open>
  One turn of the event loop: the pending request of call number \<open>i\<close> settles and the
  call runs to its next suspension.  A call with nothing pending is left alone.
\<close>

definition resume ::
  "(string \<Rightarrow> load_env) \<Rightarrow> nat \<Rightarrow> (string \<times> load_status) list \<times> ConfigManager
     \<Rightarrow> (string \<times> load_status) list \<times> ConfigManager" where
  "resume envs i ts =
     (case ts of (tasks, s) \<Rightarrow>
        if i < length tasks then
          (case tasks ! i of
             (type, AwaitGet) \<Rightarrow>
               (case load_on_get s type (envs type) of
                  (st, s') \<Rightarrow> (tasks[i := (type, st)], s'))
           | (type, AwaitSet d) \<Rightarrow>
               (case load_on_set s type d (envs type) of
                  (st, s') \<Rightarrow> (tasks[i := (type, st)], s'))
           | (type, Settled r) \<Rightarrow> (tasks, s))
        else (tasks, s))"

text \<open>
  \<^verbatim>\<open>Promise.allSettled\<close>: pending while any input is, then fulfilled with the list
  of outcomes; it never rejects.
\<close>

datatype settled = Fulfilled jobj | Rejected js_error

fun allSettled :: "load_status list \<Rightarrow> settled list option" where
  "allSettled [] = Some []"
| "allSettled (Settled r # sts) =
     (case allSettled sts of
        None \<Rightarrow> None
      | Some rs \<Rightarrow> Some ((case r of Inl e \<Rightarrow> Rejected e | Inr v \<Rightarrow> Fulfilled v) # rs))"
| "allSettled (st # sts) = None"

text \<open>
  \<^verbatim>\<open>loadAllConfigs\<close> under a schedule, the order in which pending requests settle.
  The result is \<open>None\<close> while the promise is still pending at the end of the schedule.
\<close>

definition loadAllConfigs ::
  "ConfigManager \<Rightarrow> (string \<Rightarrow> load_env) \<Rightarrow> nat list \<Rightarrow> (js_error + unit) option \<times> ConfigManager"
  where
  "loadAllConfigs s envs schedule =
     (case fold (resume envs) schedule (start_all s envs configTypes) of
        (tasks, s') \<Rightarrow>
          (case allSettled (map snd tasks) of
             None \<Rightarrow> (None, s')
           | Some results \<Rightarrow> (Some (Inr ()), s')))"

subsection \<open>Initialization\<close>

text \<open>
  \<^verbatim>\<open>loadCriticalConfigs\<close>; \<open>reply\<close> is the outcome of the \<^verbatim>\<open>get\<close> request for
  \<^verbatim>\<open>ui-critical\<close>.  \<^verbatim>\<open>Object.assign(critical, d)\<close> writes the properties of \<open>d\<close>
  over \<open>critical\<close>.
\<close>

definition loadCriticalConfigs ::
  "ConfigManager \<Rightarrow> js_error + jobj option \<Rightarrow> (js_error + jobj) \<times> ConfigManager" where
  "loadCriticalConfigs s reply =
     (let critical = [(''defaultPlaceholder'', JStr ''Search packs, cities...''),
                      (''loadingMessage'', JStr ''Loading your area...''),
                      (''errorMessage'', JStr ''Unable to load your area''),
                      (''defaultRegion'', JStr ''northeast'')];
          s1 = s\<lparr> db_log := db_log s @ [DbGet ''ui-critical''] \<rparr>;
          critical' = (case reply of
                         Inl error \<Rightarrow> critical
                       | Inr snapshot \<Rightarrow>
                           (case snapshot of Some d \<Rightarrow> js_spread critical d | None \<Rightarrow> critical));
          s2 = s1\<lparr> configs := AList.update ''critical'' critical' (configs s1) \<rparr>
      in (Inr critical', s2))"

text \<open>
  \<^verbatim>\<open>loadFallbackConfigs\<close>: one default per key of \<^verbatim>\<open>getDefaultConfig('')\<close>.  (The
  calls of \<^verbatim>\<open>getDefaultConfig\<close> in the loop are given the same generator inputs.)
\<close>

definition loadFallbackConfigs ::
  "ConfigManager \<Rightarrow> (nat \<Rightarrow> string) \<Rightarrow> (nat \<Rightarrow> nat) \<Rightarrow> ConfigManager" where
  "loadFallbackConfigs s rnd clk =
     (let s1 = fold (\<lambda>type s'. s'\<lparr> configs := AList.update type (getDefaultConfig rnd clk type)
                                                  (configs s') \<rparr>)
                    (map fst (getDefaultConfig rnd clk [])) s;
          s2 = s1\<lparr> isInitialized := True \<rparr>
      in notifyCallbacks s2 ''fallbackLoaded'' JNull)"

text \<open>
  \<^verbatim>\<open>initialize\<close>: the critical configs are awaited, \<^verbatim>\<open>loadAllConfigs\<close> is started and
  not awaited.  The result holds, besides the value returned, the loads left in flight;
  they resume after the return.
\<close>

definition initialize ::
  "ConfigManager \<Rightarrow> js_error + jobj option \<Rightarrow> (string \<Rightarrow> load_env) \<Rightarrow> (nat \<Rightarrow> string)
     \<Rightarrow> (nat \<Rightarrow> nat) \<Rightarrow> (js_error + bool) \<times> ((string \<times> load_status) list \<times> ConfigManager)" where
  "initialize s reply envs rnd clk =
     (case loadCriticalConfigs s reply of
        (Inl error, s1) \<Rightarrow> (Inr False, ([], loadFallbackConfigs s1 rnd clk))
      | (Inr critical, s1) \<Rightarrow>
          (case start_all s1 envs configTypes of
             (tasks, s2) \<Rightarrow>
               (let s3 = s2\<lparr> isInitialized := True \<rparr>;
                    s4 = notifyCallbacks s3 ''initialized'' JNull
                in (Inr True, (tasks, s4)))))"

text \<open>The cache as a keyed store: no key occurs twice.\<close>

definition cache_inv :: "ConfigManager \<Rightarrow> bool" where
  "cache_inv s \<longleftrightarrow> distinct (map fst (cache s))"

section \<open>LocationManager\<close>

record city =
  name :: string
  state :: string
  key :: string
  lat :: rat
  lng :: rat

text \<open>
  The fields of the class, then the browser storage it persists to and the trace of
  listener invocations (listener, city).  Reading the storage is taken not to fail; a write
  may throw, and its outcome is an input of \<^verbatim>\<open>setCurrentCity\<close>.
\<close>

record LocationManager =
  currentCity :: "city option"
  cities :: "city list"
  listeners :: "callback list"
  localStorage :: "(string \<times> string) list"
  notified :: "(nat \<times> city) list"

definition getCityByKey :: "LocationManager \<Rightarrow> string \<Rightarrow> city option" where
  "getCityByKey m k = find (\<lambda>c. key c = k) (cities m)"

definition call_listener :: "callback \<Rightarrow> city \<Rightarrow> js_error + unit" where
  "call_listener cb c = (if cb_throws cb then Inl CallbackError else Inr ())"

definition notify_listener :: "city \<Rightarrow> callback \<Rightarrow> LocationManager \<Rightarrow> LocationManager" where
  "notify_listener c cb m =
     (let m' = m\<lparr> notified := notified m @ [(cb_id cb, c)] \<rparr>
      in (case call_listener cb c of Inl error \<Rightarrow> m' | Inr u \<Rightarrow> m'))"

definition notifyListeners :: "LocationManager \<Rightarrow> city \<Rightarrow> LocationManager" where
  "notifyListeners m c = fold (notify_listener c) (listeners m) m"

definition onCityChange :: "LocationManager \<Rightarrow> callback \<Rightarrow> LocationManager" where
  "onCityChange m cb = m\<lparr> listeners := listeners m @ [cb] \<rparr>"

text \<open>
  \<^verbatim>\<open>setCurrentCity\<close>; \<open>write\<close> is the outcome of \<^verbatim>\<open>localStorage.setItem\<close>.  The
  current city is assigned before the write; an exception of the write is not caught, so it
  ends the call before the listeners are notified.
\<close>

definition setCurrentCity ::
  "LocationManager \<Rightarrow> string \<Rightarrow> js_error + unit \<Rightarrow> (js_error + bool) \<times> LocationManager" where
  "setCurrentCity m cityKey write =
     (case getCityByKey m cityKey of
        None \<Rightarrow> (Inr False, m)
      | Some c \<Rightarrow>
          (let m1 = m\<lparr> currentCity := Some c \<rparr>
           in (case write of
                 Inl error \<Rightarrow> (Inl error, m1)
               | Inr u \<Rightarrow>
                   (let m2 = m1\<lparr> localStorage :=
                                   AList.update ''packslist-selected-city'' cityKey
                                     (localStorage m1) \<rparr>;
                        m3 = notifyListeners m2 c
                    in (Inr True, m3)))))"

text \<open>\<^verbatim>\<open>init\<close>: the saved city if it names a known city, Boston otherwise.\<close>

definition init :: "LocationManager \<Rightarrow> LocationManager" where
  "init m =
     (let m1 = (case map_of (localStorage m) ''packslist-selected-city'' of
                  None \<Rightarrow> m
                | Some savedCity \<Rightarrow>
                    if savedCity \<noteq> [] then
                      (case getCityByKey m savedCity of
                         None \<Rightarrow> m
                       | Some cityData \<Rightarrow> m\<lparr> currentCity := Some cityData \<rparr>)
                    else m)
      in (case currentCity m1 of
            None \<Rightarrow> m1\<lparr> currentCity := getCityByKey m1 ''boston'' \<rparr>
          | Some c \<Rightarrow> m1))"

definition new_LocationManager :: "(string \<times> string) list \<Rightarrow> LocationManager" where
  "new_LocationManager storage =
     init \<lparr> currentCity = None,
            cities =
              [\<lparr> name = ''Boston'', state = ''MA'', key = ''boston'', lat = 42.3601, lng = - 71.0589 \<rparr>,
               \<lparr> name = ''Springfield'', state = ''MA'', key = ''springfield'', lat = 42.1015, lng = - 72.5898 \<rparr>,
               \<lparr> name = ''Worcester'', state = ''MA'', key = ''worcester'', lat = 42.2626, lng = - 71.8023 \<rparr>,
               \<lparr> name = ''South Coast'', state = ''MA'', key = ''south-coast'', lat = 41.6362, lng = - 70.9342 \<rparr>,
               \<lparr> name = ''North Shore'', state = ''MA'', key = ''north-shore'', lat = 42.6648, lng = - 71.1581 \<rparr>,
               \<lparr> name = ''Providence'', state = ''RI'', key = ''providence'', lat = 41.8240, lng = - 71.4128 \<rparr>,
               \<lparr> name = ''Newport'', state = ''RI'', key = ''newport'', lat = 41.4901, lng = - 71.3128 \<rparr>,
               \<lparr> name = ''Woonsocket'', state = ''RI'', key = ''woonsocket'', lat = 42.0029, lng = - 71.5153 \<rparr>,
               \<lparr> name = ''Hartford'', state = ''CT'', key = ''hartford'', lat = 41.7658, lng = - 72.6734 \<rparr>,
               \<lparr> name = ''New Haven'', state = ''CT'', key = ''new-haven'', lat = 41.3083, lng = - 72.9279 \<rparr>,
               \<lparr> name = ''Bridgeport'', state = ''CT'', key = ''bridgeport'', lat = 41.1865, lng = - 73.2052 \<rparr>,
               \<lparr> name = ''Stamford'', state = ''CT'', key = ''stamford'', lat = 41.0534, lng = - 73.5387 \<rparr>],
            listeners = [],
            localStorage = storage,
            notified = [] \<rparr>"

subsection \<open>Histories of calls\<close>

text \<open>
  A call of a method that touches the stored configs or the cache, with what the call
  receives from outside; \<open>perform\<close> is its effect on the instance, \<open>stores\<close> the types
  for which it may store a config, \<open>run\<close> a sequence of calls.
\<close>

datatype cm_call =
    Load string load_env
  | LoadAll "string \<Rightarrow> load_env" "nat list"
  | Update string jobj "js_error + unit"
  | ClearCache
  | OnConfigUpdate callback
  | LoadCritical "js_error + jobj option"
  | LoadFallback "nat \<Rightarrow> string" "nat \<Rightarrow> nat"
  | Initialize "js_error + jobj option" "string \<Rightarrow> load_env" "nat list" "nat \<Rightarrow> string" "nat \<Rightarrow> nat"

fun perform :: "cm_call \<Rightarrow> ConfigManager \<Rightarrow> ConfigManager" where
  "perform (Load type env) s = snd (loadConfigType s type env)"
| "perform (LoadAll envs schedule) s = snd (loadAllConfigs s envs schedule)"
| "perform (Update type d reply) s = snd (updateConfig s type d reply)"
| "perform ClearCache s = clearCache s"
| "perform (OnConfigUpdate cb) s = onConfigUpdate s cb"
| "perform (LoadCritical reply) s = snd (loadCriticalConfigs s reply)"
| "perform (LoadFallback rnd clk) s = loadFallbackConfigs s rnd clk"
| "perform (Initialize reply envs schedule rnd clk) s =
     snd (fold (resume envs) schedule (snd (initialize s reply envs rnd clk)))"

fun stores :: "cm_call \<Rightarrow> string list" where
  "stores (Load type env) = [type]"
| "stores (LoadAll envs schedule) = configTypes"
| "stores (Update type d reply) = (case reply of Inl e \<Rightarrow> [] | Inr u \<Rightarrow> [type])"
| "stores ClearCache = []"
| "stores (OnConfigUpdate cb) = []"
| "stores (LoadCritical reply) = [''critical'']"
| "stores (LoadFallback rnd clk) = map fst (getDefaultConfig rnd clk [])"
| "stores (Initialize reply envs schedule rnd clk) =
     ''critical'' # configTypes @ map fst (getDefaultConfig rnd clk [])"

definition run :: "cm_call list \<Rightarrow> ConfigManager \<Rightarrow> ConfigManager" where
  "run calls s = fold perform calls s"

text \<open>How many requests a suspended load may still wait for.\<close>

fun rank :: "load_status \<Rightarrow> nat" where
  "rank AwaitGet = 2"
| "rank (AwaitSet d) = 1"
| "rank (Settled r) = 0"

definition fulfilled_only :: "(string \<times> load_status) list \<Rightarrow> bool" where
  "fulfilled_only tasks \<longleftrightarrow> (\<forall>task \<in> set tasks. \<forall>e. snd task \<noteq> Settled (Inl e))"

text \<open>
  What is known of a load in flight, relative to the instance \<open>s\<close> on which
  \<^verbatim>\<open>loadAllConfigs\<close> was called and the instance \<open>s'\<close> reached so far: a suspended load
  found no fresh cache entry and has not touched its cache entry; a settled load returned
  what \<^verbatim>\<open>loadConfigType\<close> alone returns on \<open>s\<close>, and left that value in the configs
  and the same cache entry.
\<close>

fun task_inv :: "ConfigManager \<Rightarrow> (string \<Rightarrow> load_env) \<Rightarrow> ConfigManager \<Rightarrow> string \<times> load_status \<Rightarrow> bool" where
  "task_inv s envs s' (t, AwaitGet) =
     (cache_hit s t (now_check (envs t)) = None \<and>
      map_of (cache s') (cacheKey t (sessionId s)) = map_of (cache s) (cacheKey t (sessionId s)))"
| "task_inv s envs s' (t, AwaitSet d) =
     (cache_hit s t (now_check (envs t)) = None \<and> get_reply (envs t) = Inr None \<and>
      d = getDefaultConfig (rand36 (envs t)) (clock (envs t)) t \<and>
      map_of (cache s') (cacheKey t (sessionId s)) = map_of (cache s) (cacheKey t (sessionId s)))"
| "task_inv s envs s' (t, Settled r) =
     (r = fst (loadConfigType s t (envs t)) \<and> r = Inr (getConfig s' t) \<and>
      map_of (cache s') (cacheKey t (sessionId s))
        = map_of (cache (snd (loadConfigType s t (envs t)))) (cacheKey t (sessionId s)))"

definition tasks_inv ::
  "ConfigManager \<Rightarrow> (string \<Rightarrow> load_env) \<Rightarrow> (string \<times> load_status) list \<times> ConfigManager \<Rightarrow> bool" where
  "tasks_inv s envs ts \<longleftrightarrow>
     sessionId (snd ts) = sessionId s \<and> distinct (map fst (fst ts)) \<and>
     (\<forall>task \<in> set (fst ts). task_inv s envs (snd ts) task)"

section \<open>Sample inputs\<close>

definition sample_manager :: ConfigManager where
  "sample_manager = constructor ''0.k2j9x'' 1700000000000"

definition sample_doc :: jobj where
  "sample_doc = [(''items'', JArr [JObj [(''key'', JStr ''salem''), (''isActive'', JBool True)]])]"

definition sample_doc2 :: jobj where
  "sample_doc2 = [(''items'', JArr [])]"

definition sample_env :: "(js_error + jobj option) \<Rightarrow> nat \<Rightarrow> nat \<Rightarrow> load_env" where
  "sample_env reply t1 t2 =
     \<lparr> now_check = t1, get_reply = reply, set_reply = Inl (RemoteError ''permission-denied''),
       now_store = t2, rand36 = (\<lambda>i. ''0.abcdefghijkl''), clock = (\<lambda>i. 1700000000000) \<rparr>"

definition sample_loaded :: ConfigManager where
  "sample_loaded =
     snd (loadConfigType sample_manager ''cities'' (sample_env (Inr (Some sample_doc)) 1000 1005))"

definition sample_fallback :: ConfigManager where
  "sample_fallback =
     snd (loadConfigType sample_manager ''cities''
            (sample_env (Inl (RemoteError ''unavailable'')) 1000 1005))"

definition sample_patch :: jobj where
  "sample_patch = [(''version'', JNum 2)]"

definition sample_envs :: "string \<Rightarrow> load_env" where
  "sample_envs type =
     (if type = ''cities'' then sample_env (Inl (RemoteError ''unavailable'')) 1000 1010
      else if type = ''ui-strings'' then sample_env (Inr None) 1000 1020
      else sample_env (Inr (Some sample_doc)) 1000 1030)"

definition sample_schedule :: "nat list" where
  "sample_schedule = [5, 4, 3, 2, 1, 0, 0, 1, 2, 3, 4, 5]"

definition sample_calls :: "cm_call list" where
  "sample_calls =
     [Initialize (Inr None) sample_envs sample_schedule (\<lambda>i. ''0.abcdefghijkl'')
        (\<lambda>i. 1700000000000),
      LoadCritical (Inl (RemoteError ''unavailable'')),
      LoadAll sample_envs sample_schedule,
      ClearCache,
      Load ''cities'' (sample_env (Inr (Some sample_doc2)) 400000 400005),
      Update ''cities'' sample_patch (Inr ()),
      Update ''vendor-display'' sample_patch (Inl (RemoteError ''permission-denied'')),
      OnConfigUpdate \<lparr> cb_id = 1, cb_throws = True \<rparr>]"

definition sample_location :: LocationManager where
  "sample_location =
     onCityChange (new_LocationManager [(''packslist-selected-city'', ''newport'')])
       \<lparr> cb_id = 7, cb_throws = True \<rparr>"

section \<open>Properties of the configuration loader\<close>

subsection \<open>What the parts of a load change\<close>

lemma notify_fold_fields:
  "configs (fold (notify_one ev d) cbs s) = configs s
   \<and> cache (fold (notify_one ev d) cbs s) = cache s
   \<and> db_log (fold (notify_one ev d) cbs s) = db_log s
   \<and> sessionId (fold (notify_one ev d) cbs s) = sessionId s
   \<and> cacheTimeout (fold (notify_one ev d) cbs s) = cacheTimeout s
   \<and> callbacks (fold (notify_one ev d) cbs s) = callbacks s
   \<and> isInitialized (fold (notify_one ev d) cbs s) = isInitialized s"
  by (induction cbs arbitrary: s) (auto simp: notify_one_def Let_def split: sum.splits)

lemma notifyCallbacks_fields [simp]:
  "configs (notifyCallbacks s ev d) = configs s"
  "cache (notifyCallbacks s ev d) = cache s"
  "db_log (notifyCallbacks s ev d) = db_log s"
  "sessionId (notifyCallbacks s ev d) = sessionId s"
  "cacheTimeout (notifyCallbacks s ev d) = cacheTimeout s"
  "callbacks (notifyCallbacks s ev d) = callbacks s"
  "isInitialized (notifyCallbacks s ev d) = isInitialized s"
  unfolding notifyCallbacks_def using notify_fold_fields[of ev d "callbacks s" s] by simp_all

lemma cache_and_publish_fields [simp]:
  "fst (cache_and_publish s t d now) = Inr d"
  "configs (snd (cache_and_publish s t d now)) = AList.update t d (configs s)"
  "cache (snd (cache_and_publish s t d now)) =
     AList.update (cacheKey t (sessionId s)) \<lparr> data = d, timestamp = now \<rparr> (cache s)"
  "db_log (snd (cache_and_publish s t d now)) = db_log s"
  "sessionId (snd (cache_and_publish s t d now)) = sessionId s"
  "cacheTimeout (snd (cache_and_publish s t d now)) = cacheTimeout s"
  by (simp_all add: cache_and_publish_def Let_def)

lemma createDefaultConfig_fields [simp]:
  "fst (createDefaultConfig s t d reply) = Inr ()"
  "configs (snd (createDefaultConfig s t d reply)) = configs s"
  "cache (snd (createDefaultConfig s t d reply)) = cache s"
  "db_log (snd (createDefaultConfig s t d reply)) = db_log s @ [DbSet t d]"
  "sessionId (snd (createDefaultConfig s t d reply)) = sessionId s"
  "cacheTimeout (snd (createDefaultConfig s t d reply)) = cacheTimeout s"
  by (simp_all add: createDefaultConfig_def Let_def split: sum.splits)

subsection \<open>The four ways through loadConfigType\<close>

lemma try_rejected:
  "get_reply env = Inl e \<Longrightarrow>
   loadConfigType_try s t env = (Inl e, s\<lparr> db_log := db_log s @ [DbGet t] \<rparr>)"
  by (simp add: loadConfigType_try_def Let_def)

lemma try_found:
  "get_reply env = Inr (Some d) \<Longrightarrow>
   loadConfigType_try s t env =
     cache_and_publish (s\<lparr> db_log := db_log s @ [DbGet t] \<rparr>) t d (now_store env)"
  by (simp add: loadConfigType_try_def Let_def)

lemma try_missing:
  "get_reply env = Inr None \<Longrightarrow>
   loadConfigType_try s t env =
     cache_and_publish
       (snd (createDefaultConfig (s\<lparr> db_log := db_log s @ [DbGet t] \<rparr>) t
               (getDefaultConfig (rand36 env) (clock env) t) (set_reply env))) t
       (getDefaultConfig (rand36 env) (clock env) t) (now_store env)"
  by (simp add: loadConfigType_try_def Let_def createDefaultConfig_def
           split: sum.splits prod.splits)

lemma load_hit:
  "cache_hit s t (now_check env) = Some c \<Longrightarrow>
   loadConfigType s t env =
     (Inr (data c), s\<lparr> configs := AList.update t (data c) (configs s) \<rparr>)"
  by (simp add: loadConfigType_def)

lemma load_rejected:
  "cache_hit s t (now_check env) = None \<Longrightarrow> get_reply env = Inl e \<Longrightarrow>
   loadConfigType s t env =
     (Inr (getDefaultConfig (rand36 env) (clock env) t),
      s\<lparr> db_log := db_log s @ [DbGet t],
         configs := AList.update t (getDefaultConfig (rand36 env) (clock env) t) (configs s) \<rparr>)"
  by (simp add: loadConfigType_def try_rejected Let_def)

lemma load_found:
  "cache_hit s t (now_check env) = None \<Longrightarrow> get_reply env = Inr (Some d) \<Longrightarrow>
   loadConfigType s t env =
     cache_and_publish (s\<lparr> db_log := db_log s @ [DbGet t] \<rparr>) t d (now_store env)"
  by (simp add: loadConfigType_def try_found cache_and_publish_def Let_def)

lemma load_missing:
  "cache_hit s t (now_check env) = None \<Longrightarrow> get_reply env = Inr None \<Longrightarrow>
   loadConfigType s t env =
     cache_and_publish
       (snd (createDefaultConfig (s\<lparr> db_log := db_log s @ [DbGet t] \<rparr>) t
               (getDefaultConfig (rand36 env) (clock env) t) (set_reply env))) t
       (getDefaultConfig (rand36 env) (clock env) t) (now_store env)"
  by (simp add: loadConfigType_def try_missing cache_and_publish_def Let_def)

lemma load_cases:
  obtains (hit) c where "cache_hit s t (now_check env) = Some c"
  | (rejected) e where "cache_hit s t (now_check env) = None" "get_reply env = Inl e"
  | (found) d where "cache_hit s t (now_check env) = None" "get_reply env = Inr (Some d)"
  | (missing) "cache_hit s t (now_check env) = None" "get_reply env = Inr None"
proof (cases "cache_hit s t (now_check env)")
  case None
  then show ?thesis
    using rejected found missing by (cases "get_reply env") auto
next
  case (Some c)
  then show ?thesis using hit by blast
qed

lemma load_returns_published:
  "fst (loadConfigType s t env) = Inr v \<Longrightarrow> getConfig (snd (loadConfigType s t env)) t = v"
  by (cases rule: load_cases[of s t env])
     (auto simp: load_hit load_rejected load_found load_missing getConfig_def update_conv')

lemma load_never_throws: "\<exists>v. fst (loadConfigType s t env) = Inr v"
  by (cases rule: load_cases[of s t env])
     (auto simp: load_hit load_rejected load_found load_missing)

lemma load_other_types:
  "t' \<noteq> t \<Longrightarrow> getConfig (snd (loadConfigType s t env)) t' = getConfig s t'"
  by (cases rule: load_cases[of s t env])
     (auto simp: load_hit load_rejected load_found load_missing getConfig_def update_conv')

lemma load_sessionId [simp]: "sessionId (snd (loadConfigType s t env)) = sessionId s"
  by (cases rule: load_cases[of s t env])
     (auto simp: load_hit load_rejected load_found load_missing)

lemma load_cacheTimeout [simp]: "cacheTimeout (snd (loadConfigType s t env)) = cacheTimeout s"
  by (cases rule: load_cases[of s t env])
     (auto simp: load_hit load_rejected load_found load_missing)

lemma cache_hit_after_store:
  "cache s1 = AList.update (cacheKey t (sessionId s)) \<lparr> data = d, timestamp = ts \<rparr> c \<Longrightarrow>
   sessionId s1 = sessionId s \<Longrightarrow>
   cache_hit s1 t now =
     (if int now - int ts < cacheTimeout s1 then Some \<lparr> data = d, timestamp = ts \<rparr> else None)"
  by (simp add: cache_hit_def update_conv')

lemma load_miss_log:
  "cache_hit s t (now_check env) = None \<Longrightarrow>
   \<exists>rest. db_log (snd (loadConfigType s t env)) = db_log s @ DbGet t # rest"
  by (cases "get_reply env"; cases "projr (get_reply env)")
     (auto simp: load_rejected load_found load_missing)

lemma sample_manager_fields:
  "configs sample_manager = []" "cache sample_manager = []"
  "cacheTimeout sample_manager = 300000" "db_log sample_manager = []"
  "callbacks sample_manager = []"
  by (simp_all add: sample_manager_def constructor_def)

lemma sample_manager_miss: "cache_hit sample_manager t now = None"
  by (simp add: cache_hit_def sample_manager_fields)

lemma sample_loaded_fields:
  "cache sample_loaded =
     [(cacheKey ''cities'' (sessionId sample_manager), \<lparr> data = sample_doc, timestamp = 1005 \<rparr>)]"
  "configs sample_loaded = [(''cities'', sample_doc)]"
  "sessionId sample_loaded = sessionId sample_manager"
  "cacheTimeout sample_loaded = 300000"
  by (simp_all add: sample_loaded_def load_found sample_manager_miss sample_manager_fields sample_env_def)

subsection \<open>Load, get, and the cache timeout\<close>

text \<open>
  Claim C1.  For every type, whenever \<^verbatim>\<open>loadConfigType(type)\<close> returns a value,
  \<^verbatim>\<open>getConfig(type)\<close> returns that value.  After a load that fetched the document \<open>d\<close>
  from the remote store, a second load whose clock is within \<^verbatim>\<open>cacheTimeout\<close> of the
  stored timestamp returns \<open>d\<close> and sends no request; a load at or after the timeout sends a
  new \<^verbatim>\<open>get\<close> request and returns what that request delivers.
\<close>

theorem load_get_until_timeout:
  "(\<forall>v. fst (loadConfigType s t env) = Inr v \<longrightarrow>
        getConfig (snd (loadConfigType s t env)) t = v) \<and>
   (cache_hit s t (now_check env) = None \<and> get_reply env = Inr (Some d) \<longrightarrow>
      (let s1 = snd (loadConfigType s t env) in
       fst (loadConfigType s t env) = Inr d \<and>
       (int (now_check env2) - int (now_store env) < cacheTimeout s \<longrightarrow>
          fst (loadConfigType s1 t env2) = Inr d \<and>
          getConfig (snd (loadConfigType s1 t env2)) t = d \<and>
          db_log (snd (loadConfigType s1 t env2)) = db_log s1) \<and>
       (\<not> int (now_check env3) - int (now_store env) < cacheTimeout s \<longrightarrow>
          (\<exists>rest. db_log (snd (loadConfigType s1 t env3)) = db_log s1 @ DbGet t # rest) \<and>
          (\<forall>d'. get_reply env3 = Inr (Some d') \<longrightarrow>
                fst (loadConfigType s1 t env3) = Inr d' \<and>
                getConfig (snd (loadConfigType s1 t env3)) t = d'))))"
proof (intro conjI impI allI)
  fix v assume "fst (loadConfigType s t env) = Inr v"
  then show "getConfig (snd (loadConfigType s t env)) t = v" by (rule load_returns_published)
next
  assume a: "cache_hit s t (now_check env) = None \<and> get_reply env = Inr (Some d)"
  define s1 where "s1 = snd (loadConfigType s t env)"
  have ld: "loadConfigType s t env =
      cache_and_publish (s\<lparr> db_log := db_log s @ [DbGet t] \<rparr>) t d (now_store env)"
    using a by (simp add: load_found)
  have c1: "cache s1 = AList.update (cacheKey t (sessionId s))
      \<lparr> data = d, timestamp = now_store env \<rparr> (cache s)"
    and sid: "sessionId s1 = sessionId s" and tmo: "cacheTimeout s1 = cacheTimeout s"
    by (simp_all add: s1_def ld)
  have r1: "fst (loadConfigType s t env) = Inr d" by (simp add: ld)
  have fresh: "int (now_check env2) - int (now_store env) < cacheTimeout s \<Longrightarrow>
      loadConfigType s1 t env2 = (Inr d, s1\<lparr> configs := AList.update t d (configs s1) \<rparr>)"
    using cache_hit_after_store[OF c1 sid, of "now_check env2"] tmo
    by (simp add: loadConfigType_def)
  have stale: "\<not> int (now_check env3) - int (now_store env) < cacheTimeout s \<Longrightarrow>
      cache_hit s1 t (now_check env3) = None"
    using cache_hit_after_store[OF c1 sid, of "now_check env3"] tmo by simp
  have refetch: "\<not> int (now_check env3) - int (now_store env) < cacheTimeout s \<Longrightarrow>
      get_reply env3 = Inr (Some d') \<Longrightarrow>
      fst (loadConfigType s1 t env3) = Inr d' \<and>
      getConfig (snd (loadConfigType s1 t env3)) t = d'" for d'
    using stale by (simp add: load_found getConfig_def update_conv')
  show "let s1 = snd (loadConfigType s t env) in
       fst (loadConfigType s t env) = Inr d \<and>
       (int (now_check env2) - int (now_store env) < cacheTimeout s \<longrightarrow>
          fst (loadConfigType s1 t env2) = Inr d \<and>
          getConfig (snd (loadConfigType s1 t env2)) t = d \<and>
          db_log (snd (loadConfigType s1 t env2)) = db_log s1) \<and>
       (\<not> int (now_check env3) - int (now_store env) < cacheTimeout s \<longrightarrow>
          (\<exists>rest. db_log (snd (loadConfigType s1 t env3)) = db_log s1 @ DbGet t # rest) \<and>
          (\<forall>d'. get_reply env3 = Inr (Some d') \<longrightarrow>
                fst (loadConfigType s1 t env3) = Inr d' \<and>
                getConfig (snd (loadConfigType s1 t env3)) t = d'))"
    unfolding Let_def s1_def[symmetric]
    using r1 fresh refetch load_miss_log[of s1 t env3] stale
    by (auto simp: getConfig_def update_conv')
qed

theorem load_get_until_timeout_witness:
  "cache_hit sample_manager ''cities'' 1000 = None \<and>
   get_reply (sample_env (Inr (Some sample_doc)) 1000 1005) = Inr (Some sample_doc) \<and>
   int (now_check (sample_env (Inl TypeError) 2000 2005))
     - int (now_store (sample_env (Inr (Some sample_doc)) 1000 1005))
     < cacheTimeout sample_manager \<and>
   cacheTimeout sample_manager
     \<le> int (now_check (sample_env (Inr (Some sample_doc2)) 400000 400005))
         - int (now_store (sample_env (Inr (Some sample_doc)) 1000 1005)) \<and>
   fst (loadConfigType sample_manager ''cities''
          (sample_env (Inr (Some sample_doc)) 1000 1005)) = Inr sample_doc \<and>
   getConfig (snd (loadConfigType sample_manager ''cities''
          (sample_env (Inr (Some sample_doc)) 1000 1005))) ''cities'' = sample_doc \<and>
   fst (loadConfigType
          (snd (loadConfigType sample_manager ''cities''
                  (sample_env (Inr (Some sample_doc)) 1000 1005)))
          ''cities'' (sample_env (Inl TypeError) 2000 2005)) = Inr sample_doc \<and>
   fst (loadConfigType
          (snd (loadConfigType sample_manager ''cities''
                  (sample_env (Inr (Some sample_doc)) 1000 1005)))
          ''cities'' (sample_env (Inr (Some sample_doc2)) 400000 400005)) = Inr sample_doc2"
  using load_get_until_timeout[of sample_manager "''cities''"
          "sample_env (Inr (Some sample_doc)) 1000 1005" sample_doc
          "sample_env (Inl TypeError) 2000 2005"
          "sample_env (Inr (Some sample_doc2)) 400000 400005"]
  by (simp add: sample_manager_miss sample_manager_fields sample_env_def Let_def)

subsection \<open>Remote failure and missing documents\<close>

text \<open>
  Claim C2.  \<^verbatim>\<open>loadConfigType\<close> always returns a value, never an error.  When the cache
  has no fresh entry and the remote \<^verbatim>\<open>get\<close> request fails, the value returned is
  \<^verbatim>\<open>getDefaultConfig(type)\<close>, and \<^verbatim>\<open>getConfig(type)\<close> returns that mapping afterwards.
\<close>

theorem load_failure_gives_default:
  "(\<exists>v. fst (loadConfigType s t env) = Inr v) \<and>
   (cache_hit s t (now_check env) = None \<and> get_reply env = Inl e \<longrightarrow>
      fst (loadConfigType s t env) = Inr (getDefaultConfig (rand36 env) (clock env) t) \<and>
      getConfig (snd (loadConfigType s t env)) t = getDefaultConfig (rand36 env) (clock env) t)"
  using load_never_throws[of s t env]
  by (auto simp: load_rejected getConfig_def update_conv')

theorem load_failure_gives_default_witness:
  "cache_hit sample_manager ''cities'' 1000 = None \<and>
   get_reply (sample_env (Inl (RemoteError ''unavailable'')) 1000 1005)
     = Inl (RemoteError ''unavailable'') \<and>
   fst (loadConfigType sample_manager ''cities''
          (sample_env (Inl (RemoteError ''unavailable'')) 1000 1005))
     = Inr (getDefaultConfig (\<lambda>i. ''0.abcdefghijkl'') (\<lambda>i. 1700000000000) ''cities'') \<and>
   getConfig (snd (loadConfigType sample_manager ''cities''
          (sample_env (Inl (RemoteError ''unavailable'')) 1000 1005))) ''cities''
     = getDefaultConfig (\<lambda>i. ''0.abcdefghijkl'') (\<lambda>i. 1700000000000) ''cities''"
  using load_failure_gives_default[of sample_manager "''cities''"
          "sample_env (Inl (RemoteError ''unavailable'')) 1000 1005" "RemoteError ''unavailable''"]
  by (simp add: sample_manager_miss sample_env_def)

text \<open>
  Claim C8.  When the cache has no fresh entry and the remote document does not exist,
  \<^verbatim>\<open>loadConfigType(type)\<close> returns \<^verbatim>\<open>getDefaultConfig(type)\<close> as a value, whatever
  becomes of the request that writes the default back; the default is also what
  \<^verbatim>\<open>getConfig(type)\<close> returns afterwards.
\<close>

theorem load_missing_document_gives_default:
  "cache_hit s t (now_check env) = None \<and> get_reply env = Inr None \<longrightarrow>
     fst (loadConfigType s t env) = Inr (getDefaultConfig (rand36 env) (clock env) t) \<and>
     getConfig (snd (loadConfigType s t env)) t = getDefaultConfig (rand36 env) (clock env) t \<and>
     db_log (snd (loadConfigType s t env)) =
       db_log s @ [DbGet t, DbSet t (getDefaultConfig (rand36 env) (clock env) t)]"
  by (auto simp: load_missing getConfig_def update_conv')

theorem load_missing_document_gives_default_witness:
  "cache_hit sample_manager ''ui-strings'' 1000 = None \<and>
   get_reply (sample_env (Inr None) 1000 1005) = Inr None \<and>
   fst (loadConfigType sample_manager ''ui-strings'' (sample_env (Inr None) 1000 1005))
     = Inr (getDefaultConfig (\<lambda>i. ''0.abcdefghijkl'') (\<lambda>i. 1700000000000) ''ui-strings'')"
  using load_missing_document_gives_default[of sample_manager "''ui-strings''"
          "sample_env (Inr None) 1000 1005"]
  by (simp add: sample_manager_miss sample_env_def)

subsection \<open>updateConfig\<close>

lemma map_of_js_spread: "map_of (js_spread a b) = map_of a ++ map_of (rev b)"
  unfolding js_spread_def
  by (induction b arbitrary: a) (auto simp: update_conv' map_add_upd_left)

lemma update_failed:
  "updateConfig s t d (Inl e) = (Inr False, s\<lparr> db_log := db_log s @ [DbUpdate t d] \<rparr>)"
  by (simp add: updateConfig_def updateConfig_try_def Let_def)

lemma update_done_result: "fst (updateConfig s t d (Inr u)) = Inr True"
  by (simp add: updateConfig_def updateConfig_try_def Let_def)

lemma update_done_fields:
  "configs (snd (updateConfig s t d (Inr u))) =
     AList.update t (js_spread (getConfig s t) d) (configs s)"
  "cache (snd (updateConfig s t d (Inr u))) = AList.delete (cacheKey t (sessionId s)) (cache s)"
  "db_log (snd (updateConfig s t d (Inr u))) = db_log s @ [DbUpdate t d]"
  "sessionId (snd (updateConfig s t d (Inr u))) = sessionId s"
  by (simp_all add: updateConfig_def updateConfig_try_def Let_def getConfig_def)

text \<open>
  Claim C10.  When the remote update fails, \<^verbatim>\<open>updateConfig(type, data)\<close> returns false and
  the configs mapping and the cache are what they were.  When it succeeds, the call returns
  true, the stored config of the type is the old one with the properties of \<open>data\<close> written
  over it, the configs of other types are untouched, the cache entry of the type is gone and
  every other cache entry is kept.
\<close>

theorem updateConfig_atomic:
  "fst (updateConfig s t d (Inl e)) = Inr False \<and>
   configs (snd (updateConfig s t d (Inl e))) = configs s \<and>
   cache (snd (updateConfig s t d (Inl e))) = cache s \<and>
   fst (updateConfig s t d (Inr u)) = Inr True \<and>
   getConfig (snd (updateConfig s t d (Inr u))) t = js_spread (getConfig s t) d \<and>
   map_of (getConfig (snd (updateConfig s t d (Inr u))) t)
     = map_of (getConfig s t) ++ map_of (rev d) \<and>
   (\<forall>t'. t' \<noteq> t \<longrightarrow> getConfig (snd (updateConfig s t d (Inr u))) t' = getConfig s t') \<and>
   map_of (cache (snd (updateConfig s t d (Inr u)))) (cacheKey t (sessionId s)) = None \<and>
   (\<forall>k. k \<noteq> cacheKey t (sessionId s) \<longrightarrow>
        map_of (cache (snd (updateConfig s t d (Inr u)))) k = map_of (cache s) k)"
  by (auto simp: update_failed update_done_result update_done_fields getConfig_def
        update_conv' delete_conv' map_of_js_spread)

theorem updateConfig_atomic_witness:
  "''ui-strings'' \<noteq> ''cities'' \<and>
   cacheKey ''ui-strings'' (sessionId sample_loaded) \<noteq> cacheKey ''cities'' (sessionId sample_loaded) \<and>
   map_of (cache sample_loaded) (cacheKey ''cities'' (sessionId sample_loaded))
     = Some \<lparr> data = sample_doc, timestamp = 1005 \<rparr> \<and>
   fst (updateConfig sample_loaded ''cities'' sample_patch (Inl (RemoteError ''permission-denied'')))
     = Inr False \<and>
   cache (snd (updateConfig sample_loaded ''cities'' sample_patch
                 (Inl (RemoteError ''permission-denied'')))) = cache sample_loaded \<and>
   fst (updateConfig sample_loaded ''cities'' sample_patch (Inr ())) = Inr True \<and>
   getConfig (snd (updateConfig sample_loaded ''cities'' sample_patch (Inr ()))) ''cities''
     = js_spread sample_doc sample_patch \<and>
   getConfig (snd (updateConfig sample_loaded ''cities'' sample_patch (Inr ()))) ''ui-strings''
     = getConfig sample_loaded ''ui-strings'' \<and>
   map_of (cache (snd (updateConfig sample_loaded ''cities'' sample_patch (Inr ()))))
       (cacheKey ''cities'' (sessionId sample_loaded)) = None \<and>
   map_of (cache (snd (updateConfig sample_loaded ''cities'' sample_patch (Inr ()))))
       (cacheKey ''ui-strings'' (sessionId sample_loaded))
     = map_of (cache sample_loaded) (cacheKey ''ui-strings'' (sessionId sample_loaded))"
  using updateConfig_atomic[of sample_loaded "''cities''" sample_patch
          "RemoteError ''permission-denied''" "()"]
  by (simp add: cacheKey_def sample_loaded_fields getConfig_def)

section \<open>Loads in flight and histories\<close>

subsection \<open>The resumptions of a load\<close>

lemma load_start_fields:
  "sessionId (snd (load_start s t now)) = sessionId s"
  "cacheTimeout (snd (load_start s t now)) = cacheTimeout s"
  "cache (snd (load_start s t now)) = cache s"
  "t' \<noteq> t \<Longrightarrow> getConfig (snd (load_start s t now)) t' = getConfig s t'"
  by (auto simp: load_start_def getConfig_def update_conv' split: option.splits)

lemma load_on_get_fields:
  "sessionId (snd (load_on_get s t env)) = sessionId s"
  "cacheTimeout (snd (load_on_get s t env)) = cacheTimeout s"
  "t' \<noteq> t \<Longrightarrow> getConfig (snd (load_on_get s t env)) t' = getConfig s t'"
  by (auto simp: load_on_get_def getConfig_def update_conv' Let_def cache_and_publish_def split: option.splits sum.splits prod.splits)

lemma load_on_set_fields:
  "sessionId (snd (load_on_set s t d env)) = sessionId s"
  "cacheTimeout (snd (load_on_set s t d env)) = cacheTimeout s"
  "t' \<noteq> t \<Longrightarrow> getConfig (snd (load_on_set s t d env)) t' = getConfig s t'"
  by (auto simp: load_on_set_def getConfig_def update_conv' Let_def cache_and_publish_def split: option.splits sum.splits prod.splits)

lemma cache_inv_publish: "cache_inv s \<Longrightarrow> cache_inv (snd (cache_and_publish s t d now))"
  by (simp add: cache_inv_def distinct_update)

lemma cache_inv_start: "cache_inv s \<Longrightarrow> cache_inv (snd (load_start s t now))"
  by (simp add: cache_inv_def load_start_fields)

lemma load_on_get_rejected:
  "get_reply env = Inl e \<Longrightarrow>
   load_on_get s t env =
     (Settled (Inr (getDefaultConfig (rand36 env) (clock env) t)),
      s\<lparr> configs := AList.update t (getDefaultConfig (rand36 env) (clock env) t) (configs s) \<rparr>)"
  by (simp add: load_on_get_def Let_def)

lemma load_on_get_found:
  "get_reply env = Inr (Some d) \<Longrightarrow>
   load_on_get s t env = (Settled (Inr d), snd (cache_and_publish s t d (now_store env)))"
  by (simp add: load_on_get_def cache_and_publish_def Let_def)

lemma load_on_get_missing:
  "get_reply env = Inr None \<Longrightarrow>
   load_on_get s t env =
     (AwaitSet (getDefaultConfig (rand36 env) (clock env) t),
      s\<lparr> db_log := db_log s @ [DbSet t (getDefaultConfig (rand36 env) (clock env) t)] \<rparr>)"
  by (simp add: load_on_get_def Let_def)

lemma load_on_set_eq:
  "load_on_set s t d env = (Settled (Inr d), snd (cache_and_publish s t d (now_store env)))"
  by (simp add: load_on_set_def cache_and_publish_def Let_def split: sum.splits)

lemma reply_cases:
  obtains (rejected) e where "r = Inl e" | (found) d where "r = Inr (Some d)" | (missing) "r = Inr None"
  by (cases r; cases "projr r") auto

lemma cache_inv_on_get: "cache_inv s \<Longrightarrow> cache_inv (snd (load_on_get s t env))"
  by (cases "get_reply env" rule: reply_cases)
     (auto simp: load_on_get_rejected load_on_get_found load_on_get_missing cache_inv_def distinct_update)

lemma cache_inv_on_set: "cache_inv s \<Longrightarrow> cache_inv (snd (load_on_set s t d env))"
  by (simp add: load_on_set_eq cache_inv_def distinct_update)

lemma cache_inv_load: "cache_inv s \<Longrightarrow> cache_inv (snd (loadConfigType s t env))"
  by (cases rule: load_cases[of s t env])
     (auto simp: load_hit load_rejected load_found load_missing cache_inv_def distinct_update)

lemma cache_inv_updateConfig: "cache_inv s \<Longrightarrow> cache_inv (snd (updateConfig s t d reply))"
  by (cases reply) (auto simp: update_failed update_done_fields cache_inv_def distinct_delete)

lemma start_all_types: "map fst (fst (start_all s envs ts)) = ts"
  by (induction ts arbitrary: s) (auto simp: split_beta)

lemma cache_inv_start_all: "cache_inv s \<Longrightarrow> cache_inv (snd (start_all s envs ts))"
  by (induction ts arbitrary: s) (auto simp: split_beta cache_inv_start)

lemma resume_snd_cases:
  "snd (resume envs i (tasks, s)) = s
   \<or> (\<exists>t. snd (resume envs i (tasks, s)) = snd (load_on_get s t (envs t)))
   \<or> (\<exists>t d. snd (resume envs i (tasks, s)) = snd (load_on_set s t d (envs t)))"
  by (cases "tasks ! i"; cases "snd (tasks ! i)") (auto simp: resume_def split_beta)

lemma cache_inv_resume: "cache_inv (snd ts) \<Longrightarrow> cache_inv (snd (resume envs i ts))"
  using resume_snd_cases[of envs i "fst ts" "snd ts"]
  by (auto simp: cache_inv_on_get cache_inv_on_set)

lemma cache_inv_schedule: "cache_inv (snd ts) \<Longrightarrow> cache_inv (snd (fold (resume envs) schedule ts))"
  by (induction schedule arbitrary: ts) (auto simp: cache_inv_resume)

lemma snd_loadAllConfigs:
  "snd (loadAllConfigs s envs schedule) = snd (fold (resume envs) schedule (start_all s envs configTypes))"
  by (simp add: loadAllConfigs_def split_beta split: option.splits)

lemma cache_inv_loadAll: "cache_inv s \<Longrightarrow> cache_inv (snd (loadAllConfigs s envs schedule))"
  by (simp add: snd_loadAllConfigs cache_inv_schedule cache_inv_start_all)

lemma loadCriticalConfigs_fields:
  "cache (snd (loadCriticalConfigs s reply)) = cache s"
  "sessionId (snd (loadCriticalConfigs s reply)) = sessionId s"
  "cacheTimeout (snd (loadCriticalConfigs s reply)) = cacheTimeout s"
  "t \<noteq> ''critical'' \<Longrightarrow> getConfig (snd (loadCriticalConfigs s reply)) t = getConfig s t"
  "\<exists>v. fst (loadCriticalConfigs s reply) = Inr v"
  by (simp_all add: loadCriticalConfigs_def Let_def getConfig_def update_conv')

lemma fallback_fold:
  "cache (fold (\<lambda>type s'. s'\<lparr> configs := AList.update type (f type) (configs s') \<rparr>) ts s) = cache s
   \<and> (t \<notin> set ts \<longrightarrow>
        getConfig (fold (\<lambda>type s'. s'\<lparr> configs := AList.update type (f type) (configs s') \<rparr>) ts s) t
          = getConfig s t)"
  by (induction ts arbitrary: s) (auto simp: getConfig_def update_conv')

lemma loadFallbackConfigs_fields:
  "cache (loadFallbackConfigs s rnd clk) = cache s"
  "t \<notin> set (map fst (getDefaultConfig rnd clk [])) \<Longrightarrow>
   getConfig (loadFallbackConfigs s rnd clk) t = getConfig s t"
  using fallback_fold[of "getDefaultConfig rnd clk" "map fst (getDefaultConfig rnd clk [])" s t]
  by (simp_all add: loadFallbackConfigs_def Let_def getConfig_def)

lemma initialize_cases:
  "snd (initialize s reply envs rnd clk) =
     ([], loadFallbackConfigs (snd (loadCriticalConfigs s reply)) rnd clk)
   \<or> (fst (snd (initialize s reply envs rnd clk))
         = fst (start_all (snd (loadCriticalConfigs s reply)) envs configTypes)
       \<and> snd (snd (initialize s reply envs rnd clk))
         = notifyCallbacks
             (snd (start_all (snd (loadCriticalConfigs s reply)) envs configTypes)
                \<lparr> isInitialized := True \<rparr>) ''initialized'' JNull)"
  by (cases "fst (loadCriticalConfigs s reply)")
     (simp_all add: initialize_def split_beta Let_def)

lemma cache_inv_initialize:
  "cache_inv s \<Longrightarrow> cache_inv (snd (snd (initialize s reply envs rnd clk)))"
proof -
  assume inv: "cache_inv s"
  have c: "cache_inv (snd (loadCriticalConfigs s reply))"
    using inv by (simp add: cache_inv_def loadCriticalConfigs_fields)
  have "cache_inv (snd (start_all (snd (loadCriticalConfigs s reply)) envs configTypes))"
    using c by (rule cache_inv_start_all)
  then show ?thesis
    using initialize_cases[of s reply envs rnd clk] c
    by (auto simp: cache_inv_def loadFallbackConfigs_fields)
qed

lemma cache_inv_perform: "cache_inv s \<Longrightarrow> cache_inv (perform c s)"
proof (cases c)
  case (Initialize reply envs schedule rnd clk)
  assume "cache_inv s"
  then show ?thesis
    using Initialize cache_inv_schedule[OF cache_inv_initialize, of s envs schedule reply envs rnd clk]
    by simp
qed (simp_all add: cache_inv_load cache_inv_loadAll cache_inv_updateConfig,
     simp_all add: cache_inv_def clearCache_def onConfigUpdate_def loadCriticalConfigs_fields
       loadFallbackConfigs_fields)

lemma cache_inv_run: "cache_inv s \<Longrightarrow> cache_inv (run calls s)"
  unfolding run_def by (induction calls arbitrary: s) (auto simp: cache_inv_perform)

lemma distinct_one_entry:
  "distinct (map fst xs) \<Longrightarrow> length (filter (\<lambda>e. fst e = k) xs) \<le> 1"
  by (induction xs) (auto simp: filter_empty_conv image_iff)


lemma resume_length: "length (fst (resume envs i ts)) = length (fst ts)"
  by (cases ts; cases "fst ts ! i"; cases "snd (fst ts ! i)") (auto simp: resume_def split_beta)

lemma resume_types: "map fst (fst (resume envs i ts)) = map fst (fst ts)"
  by (cases ts; cases "fst ts ! i"; cases "snd (fst ts ! i)")
     (auto simp: resume_def split_beta map_update list_update_same_conv)

lemma resume_other: "j \<noteq> i \<Longrightarrow> fst (resume envs i ts) ! j = fst ts ! j"
  by (cases ts; cases "fst ts ! i"; cases "snd (fst ts ! i)") (auto simp: resume_def split_beta)

lemma load_on_get_rank: "rank (fst (load_on_get s t env)) \<le> 1"
  by (cases "get_reply env" rule: reply_cases)
     (auto simp: load_on_get_rejected load_on_get_found load_on_get_missing)

lemma resume_rank:
  "i < length (fst ts) \<Longrightarrow> rank (snd (fst (resume envs i ts) ! i)) \<le> rank (snd (fst ts ! i)) - 1"
  using load_on_get_rank[of "snd ts" "fst (fst ts ! i)" "envs (fst (fst ts ! i))"]
  by (cases ts; cases "fst ts ! i"; cases "snd (fst ts ! i)")
     (auto simp: resume_def split_beta load_on_set_eq)

lemma schedule_length: "length (fst (fold (resume envs) schedule ts)) = length (fst ts)"
  by (induction schedule arbitrary: ts) (auto simp: resume_length)

lemma schedule_types: "map fst (fst (fold (resume envs) schedule ts)) = map fst (fst ts)"
  by (induction schedule arbitrary: ts) (auto simp: resume_types)

lemma schedule_rank:
  "i < length (fst ts) \<Longrightarrow>
   rank (snd (fst (fold (resume envs) schedule ts) ! i)) \<le> rank (snd (fst ts ! i)) - count_list schedule i"
proof (induction schedule arbitrary: ts)
  case Nil
  then show ?case by simp
next
  case (Cons j schedule)
  have len: "i < length (fst (resume envs j ts))" using Cons.prems by (simp add: resume_length)
  have step: "rank (snd (fst (resume envs j ts) ! i)) \<le> rank (snd (fst ts ! i)) - (if j = i then 1 else 0)"
    using resume_rank[of i ts envs] resume_other[of i j envs ts] Cons.prems by auto
  show ?case using Cons.IH[OF len] step by auto
qed

lemma rank_le_2: "rank st \<le> 2"
  by (cases st) auto

lemma allSettled_iff: "allSettled sts \<noteq> None \<longleftrightarrow> (\<forall>st \<in> set sts. rank st = 0)"
  by (induction sts rule: allSettled.induct) (auto split: option.splits)

lemma fulfilled_start_all: "fulfilled_only (fst (start_all s envs ts))"
  by (induction ts arbitrary: s) (auto simp: fulfilled_only_def split_beta load_start_def split: option.splits)

lemma load_on_get_fulfilled: "fst (load_on_get s t env) \<noteq> Settled (Inl e)"
  by (cases "get_reply env" rule: reply_cases)
     (auto simp: load_on_get_rejected load_on_get_found load_on_get_missing)

lemma resume_at:
  "i < length (fst ts) \<Longrightarrow>
   snd (fst (resume envs i ts) ! i) = snd (fst ts ! i)
   \<or> snd (fst (resume envs i ts) ! i) = fst (load_on_get (snd ts) (fst (fst ts ! i)) (envs (fst (fst ts ! i))))
   \<or> (\<exists>d. snd (fst (resume envs i ts) ! i) = Settled (Inr d))"
  by (cases ts; cases "fst ts ! i"; cases "snd (fst ts ! i)")
     (auto simp: resume_def split_beta load_on_set_eq)

lemma fulfilled_resume:
  assumes a: "fulfilled_only (fst ts)"
  shows "fulfilled_only (fst (resume envs i ts))"
  unfolding fulfilled_only_def
proof (intro ballI allI)
  fix task e assume "task \<in> set (fst (resume envs i ts))"
  then obtain j where j: "j < length (fst ts)" "task = fst (resume envs i ts) ! j"
    by (metis in_set_conv_nth resume_length)
  have old: "snd (fst ts ! j) \<noteq> Settled (Inl e)"
    using a j(1) by (auto simp: fulfilled_only_def)
  show "snd task \<noteq> Settled (Inl e)"
  proof (cases "j = i")
    case False
    then show ?thesis using j old resume_other[of j i envs ts] by simp
  next
    case True
    then show ?thesis
      using j old resume_at[of i ts envs]
        load_on_get_fulfilled[of "snd ts" "fst (fst ts ! i)" "envs (fst (fst ts ! i))" e]
      by auto
  qed
qed

lemma fulfilled_schedule: "fulfilled_only (fst ts) \<Longrightarrow> fulfilled_only (fst (fold (resume envs) schedule ts))"
  by (induction schedule arbitrary: ts) (auto simp: fulfilled_resume)

lemma loadAll_completes:
  assumes "list_all (\<lambda>i. 2 \<le> count_list schedule i) [0..<length configTypes]"
  shows "fst (loadAllConfigs s envs schedule) = Some (Inr ())"
proof -
  let ?begun = "start_all s envs configTypes"
  let ?final = "fold (resume envs) schedule ?begun"
  have len0: "length (fst ?begun) = length configTypes"
    using start_all_types[of s envs configTypes] by (metis length_map)
  have len: "length (fst ?final) = length configTypes" by (simp add: schedule_length len0)
  have "rank (snd (fst ?final ! i)) = 0" if "i < length configTypes" for i
  proof -
    have "2 \<le> count_list schedule i" using assms that by (simp add: list_all_iff)
    then show ?thesis
      using schedule_rank[of i ?begun envs schedule] rank_le_2[of "snd (fst ?begun ! i)"] that len0 by simp
  qed
  then have "\<forall>st \<in> set (map snd (fst ?final)). rank st = 0"
    using len by (fastforce simp: in_set_conv_nth)
  then have "allSettled (map snd (fst ?final)) \<noteq> None" by (simp only: allSettled_iff)
  then show ?thesis by (auto simp: loadAllConfigs_def split_beta split: option.splits)
qed


lemma cache_hit_cong:
  "cache s' = cache s \<Longrightarrow> sessionId s' = sessionId s \<Longrightarrow> cacheTimeout s' = cacheTimeout s \<Longrightarrow>
   cache_hit s' t now = cache_hit s t now"
  by (auto simp: cache_hit_def split: option.splits)

lemma start_all_requests_general:
  "db_log (snd (start_all s envs ts)) =
     db_log s @ map DbGet (filter (\<lambda>t. cache_hit s t (now_check (envs t)) = None) ts)"
proof (induction ts arbitrary: s)
  case Nil
  then show ?case by simp
next
  case (Cons t ts)
  let ?s1 = "snd (load_start s t (now_check (envs t)))"
  have same: "cache_hit ?s1 t' now = cache_hit s t' now" for t' now
    by (rule cache_hit_cong) (simp_all add: load_start_fields)
  have log1: "db_log ?s1 = db_log s @ (if cache_hit s t (now_check (envs t)) = None then [DbGet t] else [])"
    by (auto simp: load_start_def split: option.splits)
  show ?case using Cons.IH[of ?s1] by (simp add: split_beta same log1)
qed

lemma phases_agree:
  "fold (resume (\<lambda>x. env)) [0, 0] (start_all s (\<lambda>x. env) [t]) =
     ([(t, Settled (fst (loadConfigType s t env)))], snd (loadConfigType s t env))"
proof (cases rule: load_cases[of s t env])
  case (hit c)
  then show ?thesis by (simp add: load_hit load_start_def resume_def)
next
  case (rejected e)
  then show ?thesis by (simp add: load_rejected load_start_def resume_def load_on_get_rejected)
next
  case (found d)
  then show ?thesis by (simp add: load_found load_start_def resume_def load_on_get_found)
next
  case missing
  then show ?thesis
    by (simp add: load_missing load_start_def resume_def load_on_get_missing load_on_set_eq
          createDefaultConfig_def Let_def)
qed

lemma start_all_other: "t \<notin> set ts \<Longrightarrow> getConfig (snd (start_all s envs ts)) t = getConfig s t"
  by (induction ts arbitrary: s) (auto simp: split_beta load_start_fields)

lemma resume_other_type:
  assumes "t \<notin> fst ` set (fst ts)"
  shows "getConfig (snd (resume envs i ts)) t = getConfig (snd ts) t"
proof (cases "i < length (fst ts)")
  case False
  then show ?thesis by (cases ts) (simp add: resume_def)
next
  case True
  then have "fst ts ! i \<in> set (fst ts)" by simp
  then have neq: "t \<noteq> fst (fst ts ! i)" using assms by auto
  show ?thesis
    using True neq load_on_get_fields(3)[of t "fst (fst ts ! i)" "snd ts"] load_on_set_fields(3)[of t "fst (fst ts ! i)" "snd ts"]
    by (cases ts; cases "fst ts ! i"; cases "snd (fst ts ! i)") (auto simp: resume_def split_beta)
qed

lemma schedule_other_type:
  "t \<notin> fst ` set (fst ts) \<Longrightarrow> getConfig (snd (fold (resume envs) schedule ts)) t = getConfig (snd ts) t"
proof (induction schedule arbitrary: ts)
  case Nil
  then show ?case by simp
next
  case (Cons i schedule)
  have "fst ` set (fst (resume envs i ts)) = fst ` set (fst ts)"
    using resume_types[of envs i ts] by (metis set_map)
  then show ?case using Cons by (simp add: resume_other_type)
qed

lemma loadAll_other_type:
  "t \<notin> set configTypes \<Longrightarrow> getConfig (snd (loadAllConfigs s envs schedule)) t = getConfig s t"
proof -
  assume a: "t \<notin> set configTypes"
  have "fst ` set (fst (start_all s envs configTypes)) = set configTypes"
    using start_all_types[of s envs configTypes] by (metis set_map)
  then show ?thesis using a by (simp add: snd_loadAllConfigs schedule_other_type start_all_other)
qed

lemma perform_other: "t \<notin> set (stores c) \<Longrightarrow> getConfig (perform c s) t = getConfig s t"
proof (cases c)
  case (Load t' env)
  assume "t \<notin> set (stores c)"
  then show ?thesis using Load by (simp add: load_other_types)
next
  case (LoadAll envs schedule)
  assume "t \<notin> set (stores c)"
  then show ?thesis using LoadAll by (simp add: loadAll_other_type)
next
  case (Update t' d reply)
  assume "t \<notin> set (stores c)"
  then show ?thesis using Update
    by (cases reply) (auto simp: update_failed update_done_fields getConfig_def update_conv')
next
  case ClearCache
  then show ?thesis by (simp add: clearCache_def getConfig_def)
next
  case (OnConfigUpdate cb)
  then show ?thesis by (simp add: onConfigUpdate_def getConfig_def)
next
  case (LoadCritical reply)
  assume "t \<notin> set (stores c)"
  then show ?thesis using LoadCritical by (simp add: loadCriticalConfigs_fields)
next
  case (LoadFallback rnd clk)
  assume "t \<notin> set (stores c)"
  then show ?thesis using LoadFallback by (simp add: loadFallbackConfigs_fields)
next
  case (Initialize reply envs schedule rnd clk)
  assume a: "t \<notin> set (stores c)"
  let ?s1 = "snd (loadCriticalConfigs s reply)"
  let ?ini = "snd (initialize s reply envs rnd clk)"
  have g1: "getConfig ?s1 t = getConfig s t"
    using a Initialize by (simp add: loadCriticalConfigs_fields)
  have types: "fst task \<in> set configTypes"
    if "task \<in> set (fst (start_all ?s1 envs configTypes))" for task
    using that start_all_types[of ?s1 envs configTypes] by (metis imageI set_map)
  have "fst ` set (fst ?ini) \<subseteq> set configTypes"
    using initialize_cases[of s reply envs rnd clk] types by auto
  then have tasks: "t \<notin> fst ` set (fst ?ini)"
    using a Initialize by auto
  have g2: "getConfig (snd ?ini) t = getConfig s t"
    using initialize_cases[of s reply envs rnd clk] a Initialize g1
      start_all_other[of t configTypes ?s1 envs]
      loadFallbackConfigs_fields(2)[of t rnd clk ?s1]
    by (auto simp: getConfig_def)
  show ?thesis
    using Initialize schedule_other_type[OF tasks, of envs schedule] g2 by simp
qed

lemma run_other:
  "\<forall>c \<in> set calls. t \<notin> set (stores c) \<Longrightarrow> getConfig (run calls s) t = getConfig s t"
  unfolding run_def by (induction calls arbitrary: s) (auto simp: perform_other)

lemma update_done_getConfig:
  "getConfig (snd (updateConfig s t d (Inr u))) t' =
     (if t' = t then js_spread (getConfig s t) d else getConfig s t')"
  by (simp add: getConfig_def update_done_fields update_conv')


subsection \<open>getConfig\<close>

text \<open>
  Claim C3.  \<^verbatim>\<open>getConfig(type)\<close> is a total function of the instance.  On a new
  instance it returns the empty mapping, and it still does after any sequence of calls none
  of which stores a config for the type.  After a load of the type that returned \<open>v\<close>, or a
  successful update of the type, followed by any sequence of calls that store nothing for
  the type, it returns what that load or update stored: \<open>v\<close>, respectively the old config
  with the update written over it.
\<close>

theorem getConfig_last_stored:
  "getConfig (constructor r now) t = [] \<and>
   ((\<forall>c \<in> set calls. t \<notin> set (stores c)) \<longrightarrow>
      getConfig (run calls (constructor r now)) t = [] \<and>
      (\<forall>v. fst (loadConfigType s t env) = Inr v \<longrightarrow>
           getConfig (run calls (snd (loadConfigType s t env))) t = v) \<and>
      getConfig (run calls (snd (updateConfig s t d (Inr u)))) t = js_spread (getConfig s t) d)"
proof (intro conjI impI allI)
  show "getConfig (constructor r now) t = []" by (simp add: getConfig_def constructor_def)
next
  assume "\<forall>c \<in> set calls. t \<notin> set (stores c)"
  then have "getConfig (run calls (constructor r now)) t = getConfig (constructor r now) t"
    by (rule run_other)
  also have "\<dots> = []" by (simp add: getConfig_def constructor_def)
  finally show "getConfig (run calls (constructor r now)) t = []" .
next
  fix v
  assume "\<forall>c \<in> set calls. t \<notin> set (stores c)" "fst (loadConfigType s t env) = Inr v"
  then show "getConfig (run calls (snd (loadConfigType s t env))) t = v"
    by (simp add: run_other load_returns_published)
next
  assume "\<forall>c \<in> set calls. t \<notin> set (stores c)"
  then have "getConfig (run calls (snd (updateConfig s t d (Inr u)))) t
      = getConfig (snd (updateConfig s t d (Inr u))) t"
    by (simp add: run_other)
  also have "\<dots> = js_spread (getConfig s t) d"
    by (simp add: update_done_getConfig)
  finally show "getConfig (run calls (snd (updateConfig s t d (Inr u)))) t = js_spread (getConfig s t) d" .
qed


theorem getConfig_last_stored_witness:
  "list_all (\<lambda>c. ''vendor-display'' \<notin> set (stores c)) sample_calls \<and>
   fst (loadConfigType sample_loaded ''vendor-display'' (sample_env (Inr (Some sample_doc2)) 2000 2005))
     = Inr sample_doc2 \<and>
   getConfig (run sample_calls (constructor ''0.k2j9x'' 1700000000000)) ''vendor-display'' = [] \<and>
   getConfig (run sample_calls
                (snd (loadConfigType sample_loaded ''vendor-display''
                        (sample_env (Inr (Some sample_doc2)) 2000 2005)))) ''vendor-display''
     = sample_doc2 \<and>
   getConfig (run sample_calls (snd (updateConfig sample_loaded ''vendor-display'' sample_patch (Inr ()))))
       ''vendor-display''
     = js_spread [] sample_patch"
proof -
  have h: "\<forall>c \<in> set sample_calls. ''vendor-display'' \<notin> set (stores c)"
    by (simp add: sample_calls_def configTypes_def getDefaultConfig_def defaults_def)
  have miss: "cache_hit sample_loaded ''vendor-display'' 2000 = None"
    by (simp add: cache_hit_def sample_loaded_fields cacheKey_def)
  have l: "fst (loadConfigType sample_loaded ''vendor-display''
                  (sample_env (Inr (Some sample_doc2)) 2000 2005)) = Inr sample_doc2"
    using miss by (simp add: load_found sample_env_def)
  have g: "getConfig sample_loaded ''vendor-display'' = []"
    by (simp add: getConfig_def sample_loaded_fields)
  show ?thesis
    using getConfig_last_stored[of "''0.k2j9x''" 1700000000000 "''vendor-display''" sample_calls
            sample_loaded "sample_env (Inr (Some sample_doc2)) 2000 2005" sample_patch "()"] h l g
    by (simp add: list_all_iff)
qed

subsection \<open>The cache\<close>

text \<open>
  Claim C4.  The cache of a new instance has no key twice, and every call keeps it so;
  hence it holds at most one entry for a type and session.  \<^verbatim>\<open>loadConfigType\<close> takes
  a cache entry only if the entry is the one stored under the key of the type and
  \<open>now - timestamp < cacheTimeout\<close>; a load that sent no request found such an entry.
  A load that fetched a document stores it under the key with the clock read after the fetch.
\<close>

theorem cache_invariant:
  "cache_inv (constructor r now) \<and>
   (cache_inv s \<longrightarrow>
      cache_inv (perform c s) \<and> cache_inv (run calls s) \<and>
      length (filter (\<lambda>entry. fst entry = cacheKey t sid) (cache s)) \<le> 1) \<and>
   (\<forall>c. cache_hit s t (now_check env) = Some c \<longrightarrow>
      map_of (cache s) (cacheKey t (sessionId s)) = Some c \<and>
      int (now_check env) - int (timestamp c) < cacheTimeout s \<and>
      fst (loadConfigType s t env) = Inr (data c) \<and>
      db_log (snd (loadConfigType s t env)) = db_log s) \<and>
   (db_log (snd (loadConfigType s t env)) = db_log s \<longrightarrow>
      (\<exists>c. map_of (cache s) (cacheKey t (sessionId s)) = Some c \<and>
           int (now_check env) - int (timestamp c) < cacheTimeout s)) \<and>
   (cache_hit s t (now_check env2) = None \<and> get_reply env2 = Inr (Some d) \<longrightarrow>
      map_of (cache (snd (loadConfigType s t env2))) (cacheKey t (sessionId s))
        = Some \<lparr> data = d, timestamp = now_store env2 \<rparr>)"
proof (intro conjI impI allI)
  show "cache_inv (constructor r now)" by (simp add: cache_inv_def constructor_def)
next
  assume "cache_inv s"
  then show "cache_inv (perform c s)" by (rule cache_inv_perform)
next
  assume "cache_inv s"
  then show "cache_inv (run calls s)" by (rule cache_inv_run)
next
  assume "cache_inv s"
  then show "length (filter (\<lambda>entry. fst entry = cacheKey t sid) (cache s)) \<le> 1"
    using distinct_one_entry[of "cache s" "cacheKey t sid"] by (simp add: cache_inv_def)
next
  fix c assume h: "cache_hit s t (now_check env) = Some c"
  then show "map_of (cache s) (cacheKey t (sessionId s)) = Some c"
    by (auto simp: cache_hit_def split: option.splits if_splits)
  from h show "int (now_check env) - int (timestamp c) < cacheTimeout s"
    by (auto simp: cache_hit_def split: option.splits if_splits)
  from h show "fst (loadConfigType s t env) = Inr (data c)" by (simp add: load_hit)
  from h show "db_log (snd (loadConfigType s t env)) = db_log s" by (simp add: load_hit)
next
  assume same: "db_log (snd (loadConfigType s t env)) = db_log s"
  have "cache_hit s t (now_check env) \<noteq> None"
    using load_miss_log[of s t env] same by auto
  then show "\<exists>c. map_of (cache s) (cacheKey t (sessionId s)) = Some c \<and>
           int (now_check env) - int (timestamp c) < cacheTimeout s"
    by (auto simp: cache_hit_def split: option.splits if_splits)
next
  assume "cache_hit s t (now_check env2) = None \<and> get_reply env2 = Inr (Some d)"
  then show "map_of (cache (snd (loadConfigType s t env2))) (cacheKey t (sessionId s))
        = Some \<lparr> data = d, timestamp = now_store env2 \<rparr>"
    by (simp add: load_found update_conv')
qed


theorem cache_invariant_witness:
  "cache_inv sample_loaded \<and>
   cache_inv (perform ClearCache sample_loaded) \<and>
   cache_inv (run sample_calls sample_loaded) \<and>
   length (filter (\<lambda>entry. fst entry = cacheKey ''cities'' (sessionId sample_loaded))
             (cache sample_loaded)) \<le> 1 \<and>
   cache_hit sample_loaded ''cities'' (now_check (sample_env (Inl TypeError) 2000 2005))
     = Some \<lparr> data = sample_doc, timestamp = 1005 \<rparr> \<and>
   int (now_check (sample_env (Inl TypeError) 2000 2005))
     - int (timestamp \<lparr> data = sample_doc, timestamp = 1005 \<rparr>) < cacheTimeout sample_loaded \<and>
   db_log (snd (loadConfigType sample_loaded ''cities'' (sample_env (Inl TypeError) 2000 2005)))
     = db_log sample_loaded \<and>
   cache_hit sample_loaded ''cities'' (now_check (sample_env (Inr (Some sample_doc2)) 400000 400005))
     = None \<and>
   map_of (cache (snd (loadConfigType sample_loaded ''cities''
                         (sample_env (Inr (Some sample_doc2)) 400000 400005))))
       (cacheKey ''cities'' (sessionId sample_loaded))
     = Some \<lparr> data = sample_doc2, timestamp = 400005 \<rparr>"
proof -
  have inv: "cache_inv sample_loaded" by (simp add: cache_inv_def sample_loaded_fields)
  have hit: "cache_hit sample_loaded ''cities'' (now_check (sample_env (Inl TypeError) 2000 2005))
     = Some \<lparr> data = sample_doc, timestamp = 1005 \<rparr>"
    by (simp add: cache_hit_def sample_loaded_fields sample_env_def)
  have miss: "cache_hit sample_loaded ''cities''
      (now_check (sample_env (Inr (Some sample_doc2)) 400000 400005)) = None"
    by (simp add: cache_hit_def sample_loaded_fields sample_env_def)
  have rep: "get_reply (sample_env (Inr (Some sample_doc2)) 400000 400005) = Inr (Some sample_doc2)"
    "now_store (sample_env (Inr (Some sample_doc2)) 400000 400005) = 400005"
    by (simp_all add: sample_env_def)
  show ?thesis
    using cache_invariant[of "''0.k2j9x''" 1700000000000 sample_loaded ClearCache sample_calls
            "''cities''" "sessionId sample_loaded" "sample_env (Inl TypeError) 2000 2005"
            "sample_env (Inr (Some sample_doc2)) 400000 400005" sample_doc2]
          inv hit miss rep
    by simp
qed

subsection \<open>loadAllConfigs\<close>

lemma cacheKey_type_inj: "cacheKey t sid = cacheKey t' sid \<longleftrightarrow> t = t'"
  by (simp add: cacheKey_def)

lemma task_inv_frame:
  "task_inv s envs s' task \<Longrightarrow> getConfig s'' (fst task) = getConfig s' (fst task) \<Longrightarrow>
   map_of (cache s'') (cacheKey (fst task) (sessionId s)) = map_of (cache s') (cacheKey (fst task) (sessionId s)) \<Longrightarrow>
   task_inv s envs s'' task"
  by (cases task; cases "snd task") auto

lemma task_inv_start:
  assumes "cache s1 = cache s" "sessionId s1 = sessionId s" "cacheTimeout s1 = cacheTimeout s"
  shows "task_inv s envs (snd (load_start s1 t (now_check (envs t))))
           (t, fst (load_start s1 t (now_check (envs t))))"
proof -
  have h: "cache_hit s1 t (now_check (envs t)) = cache_hit s t (now_check (envs t))"
    using assms by (rule cache_hit_cong)
  show ?thesis
  proof (cases "cache_hit s t (now_check (envs t))")
    case None
    then show ?thesis using h assms by (simp add: load_start_def)
  next
    case (Some c)
    then show ?thesis using h assms
      by (simp add: load_start_def load_hit getConfig_def update_conv')
  qed
qed

lemma task_inv_on_get:
  assumes "sessionId s' = sessionId s" "task_inv s envs s' (t, AwaitGet)"
  shows "task_inv s envs (snd (load_on_get s' t (envs t))) (t, fst (load_on_get s' t (envs t)))"
proof (cases "get_reply (envs t)" rule: reply_cases)
  case (rejected e)
  then show ?thesis using assms
    by (simp add: load_on_get_rejected load_rejected getConfig_def update_conv')
next
  case (found d)
  then show ?thesis using assms
    by (simp add: load_on_get_found load_found getConfig_def update_conv')
next
  case missing
  then show ?thesis using assms by (simp add: load_on_get_missing)
qed

lemma task_inv_on_set:
  assumes "sessionId s' = sessionId s" "task_inv s envs s' (t, AwaitSet d)"
  shows "task_inv s envs (snd (load_on_set s' t d (envs t))) (t, fst (load_on_set s' t d (envs t)))"
  using assms by (simp add: load_on_set_eq load_missing getConfig_def update_conv')

lemma load_on_get_cache_other:
  "k \<noteq> cacheKey t (sessionId s) \<Longrightarrow>
   map_of (cache (snd (load_on_get s t env))) k = map_of (cache s) k"
  by (cases "get_reply env" rule: reply_cases)
     (auto simp: load_on_get_rejected load_on_get_found load_on_get_missing update_conv')

lemma load_on_set_cache_other:
  "k \<noteq> cacheKey t (sessionId s) \<Longrightarrow>
   map_of (cache (snd (load_on_set s t d env))) k = map_of (cache s) k"
  by (simp add: load_on_set_eq update_conv')


lemma start_all_view:
  "cache (snd (start_all s envs ts)) = cache s \<and>
   sessionId (snd (start_all s envs ts)) = sessionId s \<and>
   cacheTimeout (snd (start_all s envs ts)) = cacheTimeout s"
  by (induction ts arbitrary: s) (auto simp: split_beta load_start_fields)

lemma tasks_inv_start_all:
  assumes "distinct ts" "cache s1 = cache s" "sessionId s1 = sessionId s"
    "cacheTimeout s1 = cacheTimeout s"
  shows "tasks_inv s envs (start_all s1 envs ts)"
  using assms
proof (induction ts arbitrary: s1)
  case Nil
  then show ?case by (simp add: tasks_inv_def)
next
  case (Cons t ts)
  let ?st = "fst (load_start s1 t (now_check (envs t)))"
  let ?s2 = "snd (load_start s1 t (now_check (envs t)))"
  let ?rest = "start_all ?s2 envs ts"
  have view2: "cache ?s2 = cache s" "sessionId ?s2 = sessionId s" "cacheTimeout ?s2 = cacheTimeout s"
    using Cons.prems by (simp_all add: load_start_fields)
  have ih: "tasks_inv s envs ?rest"
    using Cons.IH[OF _ view2] Cons.prems(1) by simp
  have eq: "start_all s1 envs (t # ts) = ((t, ?st) # fst ?rest, snd ?rest)"
    by (simp add: split_beta)
  have head0: "task_inv s envs ?s2 (t, ?st)"
    using Cons.prems(2-4) by (rule task_inv_start)
  have "t \<notin> set ts" using Cons.prems(1) by simp
  then have g: "getConfig (snd ?rest) t = getConfig ?s2 t" by (rule start_all_other)
  have c: "cache (snd ?rest) = cache ?s2" using start_all_view[of ?s2 envs ts] by simp
  have head: "task_inv s envs (snd ?rest) (t, ?st)"
    using task_inv_frame[OF head0, of "snd ?rest"] g c by simp
  have types: "map fst (fst ?rest) = ts" by (rule start_all_types)
  show ?case
    using ih head types Cons.prems(1) unfolding eq tasks_inv_def by simp
qed

lemma update_task:
  assumes dist: "distinct (map fst tasks)" and i: "i < length tasks" and ti: "tasks ! i = (t, st)"
    and P: "\<And>task. task \<in> set tasks \<Longrightarrow> P task"
    and new: "Q (t, st2)"
    and old: "\<And>task. task \<in> set tasks \<Longrightarrow> fst task \<noteq> t \<Longrightarrow> P task \<Longrightarrow> Q task"
  shows "\<forall>task \<in> set (tasks[i := (t, st2)]). Q task"
proof
  fix task assume "task \<in> set (tasks[i := (t, st2)])"
  then obtain j where j: "j < length tasks" "task = tasks[i := (t, st2)] ! j"
    unfolding in_set_conv_nth by auto
  show "Q task"
  proof (cases "j = i")
    case True
    then show ?thesis using j new by simp
  next
    case False
    then have tj: "task = tasks ! j" using j by simp
    have "map fst tasks ! j \<noteq> map fst tasks ! i"
      using nth_eq_iff_index_eq[OF dist, of j i] False i j(1) by simp
    then have "fst task \<noteq> t" using tj i j(1) ti by simp
    moreover have "task \<in> set tasks" using tj j(1) by simp
    ultimately show ?thesis using old P by blast
  qed
qed

lemma update_types:
  "i < length tasks \<Longrightarrow> tasks ! i = (t, st) \<Longrightarrow> map fst (tasks[i := (t, st2)]) = map fst tasks"
  by (simp add: map_update list_update_same_conv)

lemma tasks_inv_resume:
  assumes inv: "tasks_inv s envs ts"
  shows "tasks_inv s envs (resume envs i ts)"
proof (cases "i < length (fst ts)")
  case False
  then show ?thesis using inv by (cases ts) (simp add: resume_def)
next
  case True
  obtain tasks s' where ts: "ts = (tasks, s')" by (cases ts)
  obtain t st where ti: "tasks ! i = (t, st)" by (cases "tasks ! i")
  have sid: "sessionId s' = sessionId s" and dist: "distinct (map fst tasks)"
    and all: "\<And>task. task \<in> set tasks \<Longrightarrow> task_inv s envs s' task"
    using inv ts by (simp_all add: tasks_inv_def)
  have i: "i < length tasks" using True ts by simp
  have "tasks ! i \<in> set tasks" using i by (rule nth_mem)
  then have ti_inv: "task_inv s envs s' (t, st)" using all[of "tasks ! i"] ti by simp
  show ?thesis
  proof (cases st)
    case (Settled r)
    then show ?thesis using inv ts i ti by (simp add: resume_def)
  next
    case AwaitGet
    let ?s2 = "snd (load_on_get s' t (envs t))"
    let ?st2 = "fst (load_on_get s' t (envs t))"
    have res: "resume envs i ts = (tasks[i := (t, ?st2)], ?s2)"
      using ts i ti AwaitGet by (simp add: resume_def split_beta)
    have new: "task_inv s envs ?s2 (t, ?st2)"
      using sid ti_inv AwaitGet task_inv_on_get[of s' s envs t] by simp
    have old: "task_inv s envs ?s2 task"
      if "task \<in> set tasks" "fst task \<noteq> t" "task_inv s envs s' task" for task
    proof -
      have k: "cacheKey (fst task) (sessionId s) \<noteq> cacheKey t (sessionId s')"
        using that(2) sid by (simp add: cacheKey_type_inj)
      have g: "getConfig ?s2 (fst task) = getConfig s' (fst task)"
        using that(2) by (rule load_on_get_fields(3))
      have c: "map_of (cache ?s2) (cacheKey (fst task) (sessionId s))
          = map_of (cache s') (cacheKey (fst task) (sessionId s))"
        using k by (rule load_on_get_cache_other)
      show ?thesis using that(3) g c by (rule task_inv_frame)
    qed
    have a: "\<forall>task \<in> set (tasks[i := (t, ?st2)]). task_inv s envs ?s2 task"
      using dist i ti all new old by (rule update_task)
    have sid2: "sessionId ?s2 = sessionId s" using sid by (simp add: load_on_get_fields)
    show ?thesis
      unfolding res tasks_inv_def using a sid2 dist update_types[OF i ti] by simp
  next
    case (AwaitSet d)
    let ?s2 = "snd (load_on_set s' t d (envs t))"
    let ?st2 = "fst (load_on_set s' t d (envs t))"
    have res: "resume envs i ts = (tasks[i := (t, ?st2)], ?s2)"
      using ts i ti AwaitSet by (simp add: resume_def split_beta)
    have new: "task_inv s envs ?s2 (t, ?st2)"
      using sid ti_inv AwaitSet task_inv_on_set[of s' s envs t d] by simp
    have old: "task_inv s envs ?s2 task"
      if "task \<in> set tasks" "fst task \<noteq> t" "task_inv s envs s' task" for task
    proof -
      have k: "cacheKey (fst task) (sessionId s) \<noteq> cacheKey t (sessionId s')"
        using that(2) sid by (simp add: cacheKey_type_inj)
      have g: "getConfig ?s2 (fst task) = getConfig s' (fst task)"
        using that(2) by (rule load_on_set_fields(3))
      have c: "map_of (cache ?s2) (cacheKey (fst task) (sessionId s))
          = map_of (cache s') (cacheKey (fst task) (sessionId s))"
        using k by (rule load_on_set_cache_other)
      show ?thesis using that(3) g c by (rule task_inv_frame)
    qed
    have a: "\<forall>task \<in> set (tasks[i := (t, ?st2)]). task_inv s envs ?s2 task"
      using dist i ti all new old by (rule update_task)
    have sid2: "sessionId ?s2 = sessionId s" using sid by (simp add: load_on_set_fields)
    show ?thesis
      unfolding res tasks_inv_def using a sid2 dist update_types[OF i ti] by simp
  qed
qed

lemma tasks_inv_schedule:
  "tasks_inv s envs ts \<Longrightarrow> tasks_inv s envs (fold (resume envs) schedule ts)"
  by (induction schedule arbitrary: ts) (auto simp: tasks_inv_resume)

lemma resume_log: "\<exists>rest. db_log (snd (resume envs i ts)) = db_log (snd ts) @ rest"
proof -
  have g: "\<exists>rest. db_log (snd (load_on_get s t env)) = db_log s @ rest" for s t env
    by (cases "get_reply env" rule: reply_cases)
       (auto simp: load_on_get_rejected load_on_get_found load_on_get_missing)
  have st: "\<exists>rest. db_log (snd (load_on_set s t d env)) = db_log s @ rest" for s t d env
    by (simp add: load_on_set_eq)
  show ?thesis
    using resume_snd_cases[of envs i "fst ts" "snd ts"] g st by auto
qed

lemma schedule_log: "\<exists>rest. db_log (snd (fold (resume envs) schedule ts)) = db_log (snd ts) @ rest"
proof (induction schedule arbitrary: ts)
  case Nil
  then show ?case by simp
next
  case (Cons i schedule)
  obtain r1 where r1: "db_log (snd (resume envs i ts)) = db_log (snd ts) @ r1"
    using resume_log by blast
  obtain r2 where r2: "db_log (snd (fold (resume envs) schedule (resume envs i ts)))
      = db_log (snd (resume envs i ts)) @ r2"
    using Cons.IH by blast
  show ?case using r1 r2 by simp
qed


lemma settled_iff_rank: "rank st = 0 \<longleftrightarrow> (\<exists>r. st = Settled r)"
  by (cases st) auto

lemma loadAll_fulfilled_iff:
  "fst (loadAllConfigs s envs schedule) = Some (Inr ()) \<longleftrightarrow>
   (\<forall>task \<in> set (fst (fold (resume envs) schedule (start_all s envs configTypes))).
      \<exists>r. snd task = Settled r)"
proof -
  let ?tasks = "fst (fold (resume envs) schedule (start_all s envs configTypes))"
  have "fst (loadAllConfigs s envs schedule) = Some (Inr ()) \<longleftrightarrow> allSettled (map snd ?tasks) \<noteq> None"
    by (auto simp: loadAllConfigs_def split_beta split: option.splits)
  also have "\<dots> \<longleftrightarrow> (\<forall>task \<in> set ?tasks. \<exists>r. snd task = Settled r)"
    using allSettled_iff[of "map snd ?tasks"] by (auto simp: settled_iff_rank)
  finally show ?thesis .
qed

lemma loadAll_pending_iff:
  "fst (loadAllConfigs s envs schedule) = None \<longleftrightarrow>
   (\<exists>task \<in> set (fst (fold (resume envs) schedule (start_all s envs configTypes))).
      \<forall>r. snd task \<noteq> Settled r)"
proof -
  have "fst (loadAllConfigs s envs schedule) = None \<longleftrightarrow>
        fst (loadAllConfigs s envs schedule) \<noteq> Some (Inr ())"
    by (auto simp: loadAllConfigs_def split_beta split: option.splits)
  then show ?thesis unfolding loadAll_fulfilled_iff by auto
qed

lemma loadAll_tasks_inv:
  "tasks_inv s envs (fold (resume envs) schedule (start_all s envs configTypes))"
proof -
  have "distinct configTypes" by (simp add: configTypes_def)
  then have "tasks_inv s envs (start_all s envs configTypes)"
    by (rule tasks_inv_start_all) simp_all
  then show ?thesis by (rule tasks_inv_schedule)
qed

lemma loadAll_settled_task:
  assumes "task \<in> set (fst (fold (resume envs) schedule (start_all s envs configTypes)))"
    and "snd task = Settled r"
  shows "r = fst (loadConfigType s (fst task) (envs (fst task))) \<and>
         r = Inr (getConfig (snd (loadAllConfigs s envs schedule)) (fst task)) \<and>
         map_of (cache (snd (loadAllConfigs s envs schedule))) (cacheKey (fst task) (sessionId s))
           = map_of (cache (snd (loadConfigType s (fst task) (envs (fst task)))))
               (cacheKey (fst task) (sessionId s))"
proof -
  have "task_inv s envs (snd (fold (resume envs) schedule (start_all s envs configTypes))) task"
    using loadAll_tasks_inv[of s envs schedule] assms(1) by (simp add: tasks_inv_def)
  moreover have "task = (fst task, Settled r)" using assms(2) by (cases task) simp
  ultimately have
    "task_inv s envs (snd (fold (resume envs) schedule (start_all s envs configTypes)))
       (fst task, Settled r)" by simp
  then show ?thesis by (auto simp: snd_loadAllConfigs)
qed

lemma loadAll_log:
  "\<exists>rest. db_log (snd (loadAllConfigs s envs schedule)) =
      db_log s @ map DbGet (filter (\<lambda>t. cache_hit s t (now_check (envs t)) = None) configTypes)
        @ rest"
  using schedule_log[of envs schedule "start_all s envs configTypes"]
  by (simp add: snd_loadAllConfigs start_all_requests_general)

lemma loadAll_fulfilled_effect:
  assumes "fst (loadAllConfigs s envs schedule) = Some (Inr ())" and "t \<in> set configTypes"
  shows "fst (loadConfigType s t (envs t)) = Inr (getConfig (snd (loadAllConfigs s envs schedule)) t) \<and>
         map_of (cache (snd (loadAllConfigs s envs schedule))) (cacheKey t (sessionId s))
           = map_of (cache (snd (loadConfigType s t (envs t)))) (cacheKey t (sessionId s))"
proof -
  let ?tasks = "fst (fold (resume envs) schedule (start_all s envs configTypes))"
  have "map fst ?tasks = configTypes" by (simp add: schedule_types start_all_types)
  then have "t \<in> fst ` set ?tasks" using assms(2) by (metis set_map)
  then obtain task where task: "task \<in> set ?tasks" "fst task = t" by auto
  obtain r where r: "snd task = Settled r"
    using assms(1) task(1) unfolding loadAll_fulfilled_iff by blast
  show ?thesis using loadAll_settled_task[OF task(1) r] task(2) by auto
qed

text \<open>
  Claim C7.  \<^verbatim>\<open>loadAllConfigs\<close> starts one load for each of the six types, in list
  order, and sends one \<^verbatim>\<open>get\<close> request for every type without a fresh cache entry
  before any reply is handled; its final state is the one the six loads reach when resumed
  in the order of the schedule.  It is pending exactly while some load has not settled and
  fulfilled exactly when all have; it never rejects, and no load settles as rejected,
  whatever the order and the outcomes of the requests.  Every load that has settled returned
  what \<^verbatim>\<open>loadConfigType\<close> alone returns for its type, whatever the order, and left that
  value in the configs and the same cache entry; so once \<^verbatim>\<open>loadAllConfigs\<close> is
  fulfilled this holds for all six types.  It is fulfilled once every load has been resumed
  for both of its requests.
\<close>

theorem loadAllConfigs_settles:
  "length configTypes = 6 \<and> distinct configTypes \<and>
   map fst (fst (start_all s envs configTypes)) = configTypes \<and>
   db_log (snd (start_all s envs configTypes)) =
     db_log s @ map DbGet (filter (\<lambda>t. cache_hit s t (now_check (envs t)) = None) configTypes) \<and>
   map fst (fst (fold (resume envs) schedule (start_all s envs configTypes))) = configTypes \<and>
   (\<forall>task \<in> set (fst (fold (resume envs) schedule (start_all s envs configTypes))).
      \<forall>e. snd task \<noteq> Settled (Inl e)) \<and>
   (\<forall>e. fst (loadAllConfigs s envs schedule) \<noteq> Some (Inl e)) \<and>
   (list_all (\<lambda>i. 2 \<le> count_list schedule i) [0..<length configTypes] \<longrightarrow>
      fst (loadAllConfigs s envs schedule) = Some (Inr ())) \<and>
   snd (loadAllConfigs s envs schedule)
     = snd (fold (resume envs) schedule (start_all s envs configTypes)) \<and>
   (\<exists>rest. db_log (snd (loadAllConfigs s envs schedule)) =
      db_log s @ map DbGet (filter (\<lambda>t. cache_hit s t (now_check (envs t)) = None) configTypes)
        @ rest) \<and>
   (fst (loadAllConfigs s envs schedule) = Some (Inr ()) \<longleftrightarrow>
      (\<forall>task \<in> set (fst (fold (resume envs) schedule (start_all s envs configTypes))).
         \<exists>r. snd task = Settled r)) \<and>
   (fst (loadAllConfigs s envs schedule) = None \<longleftrightarrow>
      (\<exists>task \<in> set (fst (fold (resume envs) schedule (start_all s envs configTypes))).
         \<forall>r. snd task \<noteq> Settled r)) \<and>
   (\<forall>task \<in> set (fst (fold (resume envs) schedule (start_all s envs configTypes))).
      \<forall>r. snd task = Settled r \<longrightarrow>
        r = fst (loadConfigType s (fst task) (envs (fst task))) \<and>
        r = Inr (getConfig (snd (loadAllConfigs s envs schedule)) (fst task)) \<and>
        map_of (cache (snd (loadAllConfigs s envs schedule))) (cacheKey (fst task) (sessionId s))
          = map_of (cache (snd (loadConfigType s (fst task) (envs (fst task)))))
              (cacheKey (fst task) (sessionId s))) \<and>
   (fst (loadAllConfigs s envs schedule) = Some (Inr ()) \<longrightarrow>
      (\<forall>t \<in> set configTypes.
         fst (loadConfigType s t (envs t))
           = Inr (getConfig (snd (loadAllConfigs s envs schedule)) t) \<and>
         map_of (cache (snd (loadAllConfigs s envs schedule))) (cacheKey t (sessionId s))
           = map_of (cache (snd (loadConfigType s t (envs t)))) (cacheKey t (sessionId s))))"
proof (intro conjI)
  show "length configTypes = 6" "distinct configTypes" by (simp_all add: configTypes_def)
  show "map fst (fst (start_all s envs configTypes)) = configTypes" by (rule start_all_types)
  show "db_log (snd (start_all s envs configTypes)) =
     db_log s @ map DbGet (filter (\<lambda>t. cache_hit s t (now_check (envs t)) = None) configTypes)"
    by (rule start_all_requests_general)
  show "map fst (fst (fold (resume envs) schedule (start_all s envs configTypes))) = configTypes"
    by (simp add: schedule_types start_all_types)
  show "\<forall>task \<in> set (fst (fold (resume envs) schedule (start_all s envs configTypes))).
      \<forall>e. snd task \<noteq> Settled (Inl e)"
    using fulfilled_schedule[OF fulfilled_start_all, of envs schedule s envs configTypes]
    by (simp add: fulfilled_only_def)
  show "\<forall>e. fst (loadAllConfigs s envs schedule) \<noteq> Some (Inl e)"
    by (simp add: loadAllConfigs_def split_beta split: option.splits)
  show "list_all (\<lambda>i. 2 \<le> count_list schedule i) [0..<length configTypes] \<longrightarrow>
      fst (loadAllConfigs s envs schedule) = Some (Inr ())"
    using loadAll_completes by blast
  show "snd (loadAllConfigs s envs schedule)
     = snd (fold (resume envs) schedule (start_all s envs configTypes))"
    by (rule snd_loadAllConfigs)
  show "\<exists>rest. db_log (snd (loadAllConfigs s envs schedule)) =
      db_log s @ map DbGet (filter (\<lambda>t. cache_hit s t (now_check (envs t)) = None) configTypes)
        @ rest"
    by (rule loadAll_log)
  show "fst (loadAllConfigs s envs schedule) = Some (Inr ()) \<longleftrightarrow>
      (\<forall>task \<in> set (fst (fold (resume envs) schedule (start_all s envs configTypes))).
         \<exists>r. snd task = Settled r)"
    by (rule loadAll_fulfilled_iff)
  show "fst (loadAllConfigs s envs schedule) = None \<longleftrightarrow>
      (\<exists>task \<in> set (fst (fold (resume envs) schedule (start_all s envs configTypes))).
         \<forall>r. snd task \<noteq> Settled r)"
    by (rule loadAll_pending_iff)
  show "\<forall>task \<in> set (fst (fold (resume envs) schedule (start_all s envs configTypes))).
      \<forall>r. snd task = Settled r \<longrightarrow>
        r = fst (loadConfigType s (fst task) (envs (fst task))) \<and>
        r = Inr (getConfig (snd (loadAllConfigs s envs schedule)) (fst task)) \<and>
        map_of (cache (snd (loadAllConfigs s envs schedule))) (cacheKey (fst task) (sessionId s))
          = map_of (cache (snd (loadConfigType s (fst task) (envs (fst task)))))
              (cacheKey (fst task) (sessionId s))"
    using loadAll_settled_task by blast
  show "fst (loadAllConfigs s envs schedule) = Some (Inr ()) \<longrightarrow>
      (\<forall>t \<in> set configTypes.
         fst (loadConfigType s t (envs t))
           = Inr (getConfig (snd (loadAllConfigs s envs schedule)) t) \<and>
         map_of (cache (snd (loadAllConfigs s envs schedule))) (cacheKey t (sessionId s))
           = map_of (cache (snd (loadConfigType s t (envs t)))) (cacheKey t (sessionId s)))"
    using loadAll_fulfilled_effect by blast
qed

lemma sample_start:
  "fst (start_all sample_manager sample_envs configTypes) =
     [(''cities'', AwaitGet), (''product-types'', AwaitGet), (''vendor-categories'', AwaitGet),
      (''metro-areas'', AwaitGet), (''ui-strings'', AwaitGet), (''region-settings'', AwaitGet)]"
proof -
  have "fst (start_all s envs ts) = map (\<lambda>t. (t, AwaitGet)) ts" if "cache s = []" for s envs ts
    using that by (induction ts arbitrary: s) (auto simp: split_beta load_start_def cache_hit_def)
  then have "fst (start_all sample_manager sample_envs configTypes)
      = map (\<lambda>t. (t, AwaitGet)) configTypes"
    by (simp add: sample_manager_fields)
  also have "\<dots> = [(''cities'', AwaitGet), (''product-types'', AwaitGet),
      (''vendor-categories'', AwaitGet), (''metro-areas'', AwaitGet), (''ui-strings'', AwaitGet),
      (''region-settings'', AwaitGet)]"
    by (simp add: configTypes_def)
  finally show ?thesis .
qed

theorem loadAllConfigs_settles_witness:
  "list_all (\<lambda>i. 2 \<le> count_list sample_schedule i) [0..<length configTypes] \<and>
   fst (loadAllConfigs sample_manager sample_envs sample_schedule) = Some (Inr ()) \<and>
   fst (loadAllConfigs sample_manager sample_envs []) = None \<and>
   db_log (snd (start_all sample_manager sample_envs configTypes)) = map DbGet configTypes \<and>
   getConfig (snd (loadAllConfigs sample_manager sample_envs sample_schedule)) ''cities''
     = getDefaultConfig (\<lambda>i. ''0.abcdefghijkl'') (\<lambda>i. 1700000000000) ''cities'' \<and>
   getConfig (snd (loadAllConfigs sample_manager sample_envs sample_schedule)) ''metro-areas''
     = sample_doc"
proof -
  have h: "list_all (\<lambda>i. 2 \<le> count_list sample_schedule i) [0..<length configTypes]"
    by (simp add: sample_schedule_def configTypes_def upt_rec)
  have mem: "''cities'' \<in> set configTypes" "''metro-areas'' \<in> set configTypes"
    by (simp_all add: configTypes_def)
  have l1: "fst (loadConfigType sample_manager ''cities'' (sample_envs ''cities''))
      = Inr (getDefaultConfig (\<lambda>i. ''0.abcdefghijkl'') (\<lambda>i. 1700000000000) ''cities'')"
    by (simp add: load_rejected sample_manager_miss sample_envs_def sample_env_def)
  have l2: "fst (loadConfigType sample_manager ''metro-areas'' (sample_envs ''metro-areas''))
      = Inr sample_doc"
    by (simp add: load_found sample_manager_miss sample_envs_def sample_env_def)
  have pend: "\<exists>task \<in> set (fst (fold (resume sample_envs) [] (start_all sample_manager sample_envs configTypes))).
         \<forall>r. snd task \<noteq> Settled r"
    by (simp add: sample_start)
  show ?thesis
    using loadAllConfigs_settles[of sample_manager sample_envs sample_schedule]
          loadAllConfigs_settles[of sample_manager sample_envs "[]"] h mem l1 l2 pend
    by (simp add: sample_manager_miss sample_manager_fields)
qed

section \<open>Session identifiers and cache keys\<close>

lemma digits36_nth: "n < 36 \<Longrightarrow> digits36 ! n \<in> set digits36"
  by (rule nth_mem) (simp add: digits36_def)

lemma to_base36_aux_chars: "set (to_base36_aux n acc) \<subseteq> set digits36 \<union> set acc"
proof (induction n acc rule: to_base36_aux.induct)
  case (1 n acc)
  show ?case
  proof (cases "n < 36")
    case True
    then show ?thesis using digits36_nth[of n] by (subst to_base36_aux.simps) auto
  next
    case False
    then show ?thesis
      using "1.IH" digits36_nth[of "n mod 36"] by (subst to_base36_aux.simps) auto
  qed
qed

lemma to_base36_chars: "set (to_base36 n) \<subseteq> set digits36"
  using to_base36_aux_chars[of n "[]"] by (simp add: to_base36_def)

lemma underscore_not_digit: "CHR ''_'' \<notin> set digits36"
  by (simp add: digits36_def)

lemma random36_chars: "is_random36 r \<Longrightarrow> set (substr r 2 k) \<subseteq> set digits36"
  unfolding is_random36_def substr_def
  by (auto simp: list_all_iff dest: in_set_takeD)

lemma sessionId_shape:
  "is_random36 r \<Longrightarrow> \<exists>a. generateSessionId r n = ''sess_'' @ a \<and> CHR ''_'' \<notin> set a"
  using random36_chars[of r 12] to_base36_chars[of n] underscore_not_digit
  by (auto simp: generateSessionId_def)

lemma after_last_separator:
  "xs @ c # a = ys @ c # b \<Longrightarrow> c \<notin> set a \<Longrightarrow> c \<notin> set b \<Longrightarrow> a = b"
proof (induction xs arbitrary: ys)
  case Nil
  then show ?case by (cases ys) auto
next
  case (Cons x xs)
  then show ?case by (cases ys) auto
qed

lemma cacheKey_session:
  assumes "cacheKey t1 (''sess_'' @ a1) = cacheKey t2 (''sess_'' @ a2)"
    and "CHR ''_'' \<notin> set a1" and "CHR ''_'' \<notin> set a2"
  shows "a1 = a2"
proof -
  have "(''config_'' @ t1 @ ''_sess'') @ CHR ''_'' # a1 = (''config_'' @ t2 @ ''_sess'') @ CHR ''_'' # a2"
    using assms(1) by (simp add: cacheKey_def)
  then show ?thesis using assms(2,3) by (rule after_last_separator)
qed

lemma cacheKey_distinct_sessions:
  assumes "is_random36 r1" "is_random36 r2"
    and "generateSessionId r1 n1 \<noteq> generateSessionId r2 n2"
  shows "cacheKey t1 (generateSessionId r1 n1) \<noteq> cacheKey t2 (generateSessionId r2 n2)"
proof
  assume eq: "cacheKey t1 (generateSessionId r1 n1) = cacheKey t2 (generateSessionId r2 n2)"
  obtain a1 where a1: "generateSessionId r1 n1 = ''sess_'' @ a1" "CHR ''_'' \<notin> set a1"
    using sessionId_shape[OF assms(1)] by blast
  obtain a2 where a2: "generateSessionId r2 n2 = ''sess_'' @ a2" "CHR ''_'' \<notin> set a2"
    using sessionId_shape[OF assms(2)] by blast
  have "a1 = a2" using eq a1 a2 cacheKey_session[of t1 a1 t2 a2] by simp
  then show False using assms(3) a1 a2 by simp
qed

lemma load_cache_frame:
  "k \<noteq> cacheKey t (sessionId s) \<Longrightarrow>
   map_of (cache (snd (loadConfigType s t env))) k = map_of (cache s) k"
  by (cases rule: load_cases[of s t env])
     (auto simp: load_hit load_rejected load_found load_missing update_conv')

lemma update_cache_frame:
  "k \<noteq> cacheKey t (sessionId s) \<Longrightarrow>
   map_of (cache (snd (updateConfig s t d reply))) k = map_of (cache s) k"
  by (cases reply) (auto simp: update_failed update_done_fields delete_conv')

lemma cache_hit_foreign:
  "k \<noteq> cacheKey t (sessionId s) \<Longrightarrow>
   cache_hit (s\<lparr> cache := AList.update k entry (cache s) \<rparr>) t now = cache_hit s t now"
  by (auto simp: cache_hit_def update_conv' split: option.splits)

lemma load_result_foreign:
  assumes "k \<noteq> cacheKey t (sessionId s)"
  shows "fst (loadConfigType (s\<lparr> cache := AList.update k entry (cache s) \<rparr>) t env)
       = fst (loadConfigType s t env)"
proof -
  let ?s' = "s\<lparr> cache := AList.update k entry (cache s) \<rparr>"
  have h: "cache_hit ?s' t (now_check env) = cache_hit s t (now_check env)"
    using assms by (rule cache_hit_foreign)
  show ?thesis
  proof (cases rule: load_cases[of s t env])
    case (hit c)
    then show ?thesis using h by (simp add: load_hit)
  next
    case (rejected e)
    then show ?thesis using h by (simp add: load_rejected)
  next
    case (found d)
    then show ?thesis using h by (simp add: load_found)
  next
    case missing
    then show ?thesis using h by (simp add: load_missing)
  qed
qed

text \<open>
  Claim C6.  The cache key embeds the session identifier.  For two instances whose
  identifiers were produced by \<^verbatim>\<open>generateSessionId\<close> and differ, the keys they
  compute differ for all types.  Each instance owns its cache; and even if an entry under a
  key of the other session were present in it, \<^verbatim>\<open>loadConfigType\<close> and
  \<^verbatim>\<open>updateConfig\<close> would leave that entry as it is, and the result of a load would not
  depend on it.
\<close>

theorem session_cache_keys_disjoint:
  "is_random36 r1 \<and> is_random36 r2 \<and> generateSessionId r1 n1 \<noteq> generateSessionId r2 n2 \<longrightarrow>
     cacheKey t1 (generateSessionId r1 n1) \<noteq> cacheKey t2 (generateSessionId r2 n2) \<and>
     (sessionId s = generateSessionId r1 n1 \<longrightarrow>
        map_of (cache (snd (loadConfigType s t1 env))) (cacheKey t2 (generateSessionId r2 n2))
          = map_of (cache s) (cacheKey t2 (generateSessionId r2 n2)) \<and>
        map_of (cache (snd (updateConfig s t1 d reply))) (cacheKey t2 (generateSessionId r2 n2))
          = map_of (cache s) (cacheKey t2 (generateSessionId r2 n2)) \<and>
        fst (loadConfigType
               (s\<lparr> cache := AList.update (cacheKey t2 (generateSessionId r2 n2)) entry (cache s) \<rparr>)
               t1 env)
          = fst (loadConfigType s t1 env))"
proof (intro impI conjI)
  assume a: "is_random36 r1 \<and> is_random36 r2 \<and> generateSessionId r1 n1 \<noteq> generateSessionId r2 n2"
  then show ne: "cacheKey t1 (generateSessionId r1 n1) \<noteq> cacheKey t2 (generateSessionId r2 n2)"
    using cacheKey_distinct_sessions by blast
  assume sid: "sessionId s = generateSessionId r1 n1"
  have k: "cacheKey t2 (generateSessionId r2 n2) \<noteq> cacheKey t1 (sessionId s)"
    using ne sid by simp
  show "map_of (cache (snd (loadConfigType s t1 env))) (cacheKey t2 (generateSessionId r2 n2))
          = map_of (cache s) (cacheKey t2 (generateSessionId r2 n2))"
    using k by (rule load_cache_frame)
  show "map_of (cache (snd (updateConfig s t1 d reply))) (cacheKey t2 (generateSessionId r2 n2))
          = map_of (cache s) (cacheKey t2 (generateSessionId r2 n2))"
    using k by (rule update_cache_frame)
  show "fst (loadConfigType
               (s\<lparr> cache := AList.update (cacheKey t2 (generateSessionId r2 n2)) entry (cache s) \<rparr>)
               t1 env)
          = fst (loadConfigType s t1 env)"
    using k by (rule load_result_foreign)
qed

theorem session_cache_keys_disjoint_witness:
  "is_random36 ''0.k2j9x'' \<and> is_random36 ''0.k2j9y'' \<and>
   generateSessionId ''0.k2j9x'' 1700000000000 \<noteq> generateSessionId ''0.k2j9y'' 1700000000000 \<and>
   sessionId sample_manager = generateSessionId ''0.k2j9x'' 1700000000000 \<and>
   cacheKey ''cities'' (generateSessionId ''0.k2j9x'' 1700000000000)
     \<noteq> cacheKey ''cities'' (generateSessionId ''0.k2j9y'' 1700000000000) \<and>
   map_of (cache (snd (loadConfigType sample_manager ''cities''
                         (sample_env (Inr (Some sample_doc)) 1000 1005))))
       (cacheKey ''cities'' (generateSessionId ''0.k2j9y'' 1700000000000)) = None"
  using session_cache_keys_disjoint[of "''0.k2j9x''" "''0.k2j9y''" 1700000000000 1700000000000 "''cities''" "''cities''"
           sample_manager "sample_env (Inr (Some sample_doc)) 1000 1005"]
  by (simp add: is_random36_def digits36_def generateSessionId_def substr_def
        sample_manager_def constructor_def)

section \<open>getConfigItem\<close>

lemma js_find_none:
  "\<forall>x \<in> set xs. p x = Inr False \<Longrightarrow> js_find p xs = Inr JUndefined"
  by (induction xs) auto

lemma getConfigItem_no_items:
  "\<not> truthy (obj_get (getConfig s t) ''items'') \<Longrightarrow> getConfigItem s t k = Inr JNull"
  by (simp add: getConfigItem_def Let_def)

lemma getConfigItem_no_match:
  assumes "obj_get (getConfig s t) ''items'' = JArr xs"
    and "\<forall>x \<in> set xs. \<exists>ps. x = JObj ps \<and> obj_get ps ''key'' \<noteq> JStr k"
  shows "getConfigItem s t k = Inr JUndefined"
proof -
  have "\<forall>x \<in> set xs. (case get_key x of Inl e \<Rightarrow> Inl e | Inr v \<Rightarrow> Inr (v = JStr k)) = Inr False"
    using assms(2) by auto
  then show ?thesis
    using assms(1) js_find_none[of xs "\<lambda>item. case get_key item of Inl e \<Rightarrow> Inl e | Inr v \<Rightarrow> Inr (v = JStr k)"]
    by (simp add: getConfigItem_def Let_def)
qed

text \<open>
  Claim C5.  For a loaded config and a key matching none of its items, \<^verbatim>\<open>getConfigItem\<close>
  is to return \<^verbatim>\<open>null\<close>.  The code does so only on its last line, when the config has
  no items; when the config has an items array it returns the result of \<^verbatim>\<open>find\<close>,
  which is \<^verbatim>\<open>undefined\<close> for a key that matches nothing.  With the built-in cities
  config loaded and the key \<^verbatim>\<open>nyc\<close> the result is \<^verbatim>\<open>undefined\<close>; on an instance
  that has loaded nothing it is \<^verbatim>\<open>null\<close>.
\<close>

theorem getConfigItem_unmatched_key:
  "getConfigItem sample_fallback ''cities'' ''nyc'' = Inr JUndefined \<and>
   getConfigItem sample_manager ''cities'' ''nyc'' = Inr JNull"
  by (simp add: sample_fallback_def load_rejected sample_manager_miss sample_manager_fields
        sample_env_def getConfigItem_def getConfig_def getDefaultConfig_def defaults_def
        obj_get_def)

section \<open>Properties of the location manager\<close>

lemma notify_listener_fold:
  "currentCity (fold (notify_listener c) ls m) = currentCity m
   \<and> cities (fold (notify_listener c) ls m) = cities m
   \<and> listeners (fold (notify_listener c) ls m) = listeners m
   \<and> localStorage (fold (notify_listener c) ls m) = localStorage m
   \<and> notified (fold (notify_listener c) ls m) = notified m @ map (\<lambda>l. (cb_id l, c)) ls"
  by (induction ls arbitrary: m) (auto simp: notify_listener_def Let_def split: sum.splits)

lemma notifyListeners_fields:
  "currentCity (notifyListeners m c) = currentCity m"
  "cities (notifyListeners m c) = cities m"
  "listeners (notifyListeners m c) = listeners m"
  "localStorage (notifyListeners m c) = localStorage m"
  "notified (notifyListeners m c) = notified m @ map (\<lambda>l. (cb_id l, c)) (listeners m)"
  unfolding notifyListeners_def using notify_listener_fold[of c "listeners m" m] by simp_all

lemma getCityByKey_None: "getCityByKey m k = None \<longleftrightarrow> k \<notin> key ` set (cities m)"
  by (auto simp: getCityByKey_def find_None_iff)

lemma getCityByKey_Some: "getCityByKey m k = Some c \<Longrightarrow> c \<in> set (cities m) \<and> key c = k"
  by (auto simp: getCityByKey_def find_Some_iff)

lemma setCurrentCity_unknown:
  "getCityByKey m k = None \<Longrightarrow> setCurrentCity m k w = (Inr False, m)"
  by (simp add: setCurrentCity_def)

lemma setCurrentCity_known:
  "getCityByKey m k = Some c \<Longrightarrow>
   fst (setCurrentCity m k (Inr u)) = Inr True \<and>
   currentCity (snd (setCurrentCity m k (Inr u))) = Some c \<and>
   localStorage (snd (setCurrentCity m k (Inr u)))
     = AList.update ''packslist-selected-city'' k (localStorage m) \<and>
   listeners (snd (setCurrentCity m k (Inr u))) = listeners m \<and>
   cities (snd (setCurrentCity m k (Inr u))) = cities m \<and>
   notified (snd (setCurrentCity m k (Inr u)))
     = notified m @ map (\<lambda>l. (cb_id l, c)) (listeners m)"
  by (simp add: setCurrentCity_def Let_def notifyListeners_fields)

lemma setCurrentCity_write_failed:
  "getCityByKey m k = Some c \<Longrightarrow>
   setCurrentCity m k (Inl e) = (Inl e, m\<lparr> currentCity := Some c \<rparr>)"
  by (simp add: setCurrentCity_def Let_def)

lemma sample_location_fields:
  "map key (cities sample_location) =
     [''boston'', ''springfield'', ''worcester'', ''south-coast'', ''north-shore'', ''providence'',
      ''newport'', ''woonsocket'', ''hartford'', ''new-haven'', ''bridgeport'', ''stamford'']"
  "listeners sample_location = [\<lparr> cb_id = 7, cb_throws = True \<rparr>]"
  "notified sample_location = []"
  "map_option key (currentCity sample_location) = Some ''newport''"
  "localStorage sample_location = [(''packslist-selected-city'', ''newport'')]"
  by (simp_all add: sample_location_def onCityChange_def new_LocationManager_def init_def
        getCityByKey_def Let_def)

lemma sample_location_hartford:
  "map_option key (getCityByKey sample_location ''hartford'') = Some ''hartford''"
  by (simp add: sample_location_def onCityChange_def new_LocationManager_def init_def
        getCityByKey_def Let_def)

text \<open>
  Claim C9, as stated, fails for a key of the list when the write to the browser storage
  throws: the call then raises instead of returning true, no listener is notified and the
  stored entry is the old one, while the current city has already been changed.  With the
  saved city \<^verbatim>\<open>newport\<close>, one registered listener and the key \<^verbatim>\<open>hartford\<close>:
\<close>

theorem setCurrentCity_write_failure_counterexample:
  "map_option key (getCityByKey sample_location ''hartford'') = Some ''hartford'' \<and>
   listeners sample_location = [\<lparr> cb_id = 7, cb_throws = True \<rparr>] \<and>
   map_option key (currentCity sample_location) = Some ''newport'' \<and>
   fst (setCurrentCity sample_location ''hartford'' (Inl StorageError)) = Inl StorageError \<and>
   notified (snd (setCurrentCity sample_location ''hartford'' (Inl StorageError))) = [] \<and>
   map_of (localStorage (snd (setCurrentCity sample_location ''hartford'' (Inl StorageError))))
       ''packslist-selected-city'' = Some ''newport'' \<and>
   map_option key (currentCity (snd (setCurrentCity sample_location ''hartford'' (Inl StorageError))))
     = Some ''hartford''"
proof -
  obtain c where c: "getCityByKey sample_location ''hartford'' = Some c" "key c = ''hartford''"
    using sample_location_hartford by (cases "getCityByKey sample_location ''hartford''") auto
  show ?thesis
    using c by (simp add: setCurrentCity_write_failed[OF c(1)] sample_location_fields)
qed

text \<open>
  Claim C9, amended.  For a key that no city of the list has, \<^verbatim>\<open>setCurrentCity\<close> returns
  false and the manager, the browser storage and the listener trace are what they were,
  whatever the storage would do.  For a key of the list, provided the write to the browser
  storage succeeds, it returns true, the current city is the first city with that key, the
  key is stored under \<^verbatim>\<open>packslist-selected-city\<close> (other storage entries are kept), and
  every registered listener is called once with that city, in registration order, also
  after a listener that throws.
\<close>

theorem setCurrentCity_when_write_succeeds:
  "(k \<notin> key ` set (cities m) \<longrightarrow> setCurrentCity m k w = (Inr False, m)) \<and>
   (k \<in> key ` set (cities m) \<longrightarrow>
      (\<exists>c. getCityByKey m k = Some c \<and> c \<in> set (cities m) \<and> key c = k \<and>
           fst (setCurrentCity m k (Inr u)) = Inr True \<and>
           currentCity (snd (setCurrentCity m k (Inr u))) = Some c \<and>
           map_of (localStorage (snd (setCurrentCity m k (Inr u)))) ''packslist-selected-city''
             = Some k \<and>
           (\<forall>k'. k' \<noteq> ''packslist-selected-city'' \<longrightarrow>
                 map_of (localStorage (snd (setCurrentCity m k (Inr u)))) k'
                   = map_of (localStorage m) k') \<and>
           listeners (snd (setCurrentCity m k (Inr u))) = listeners m \<and>
           cities (snd (setCurrentCity m k (Inr u))) = cities m \<and>
           notified (snd (setCurrentCity m k (Inr u)))
             = notified m @ map (\<lambda>l. (cb_id l, c)) (listeners m)))"
proof (intro conjI impI)
  assume "k \<notin> key ` set (cities m)"
  then show "setCurrentCity m k w = (Inr False, m)"
    by (simp add: setCurrentCity_unknown getCityByKey_None)
next
  assume "k \<in> key ` set (cities m)"
  then obtain c where c: "getCityByKey m k = Some c"
    using getCityByKey_None[of m k] by (cases "getCityByKey m k") auto
  show "\<exists>c. getCityByKey m k = Some c \<and> c \<in> set (cities m) \<and> key c = k \<and>
           fst (setCurrentCity m k (Inr u)) = Inr True \<and>
           currentCity (snd (setCurrentCity m k (Inr u))) = Some c \<and>
           map_of (localStorage (snd (setCurrentCity m k (Inr u)))) ''packslist-selected-city''
             = Some k \<and>
           (\<forall>k'. k' \<noteq> ''packslist-selected-city'' \<longrightarrow>
                 map_of (localStorage (snd (setCurrentCity m k (Inr u)))) k'
                   = map_of (localStorage m) k') \<and>
           listeners (snd (setCurrentCity m k (Inr u))) = listeners m \<and>
           cities (snd (setCurrentCity m k (Inr u))) = cities m \<and>
           notified (snd (setCurrentCity m k (Inr u)))
             = notified m @ map (\<lambda>l. (cb_id l, c)) (listeners m)"
    using c getCityByKey_Some[OF c] setCurrentCity_known[OF c, of u]
    by (intro exI[of _ c]) (simp add: update_conv')
qed

theorem setCurrentCity_when_write_succeeds_witness:
  "''atlantis'' \<notin> key ` set (cities sample_location) \<and>
   setCurrentCity sample_location ''atlantis'' (Inl StorageError) = (Inr False, sample_location) \<and>
   ''hartford'' \<in> key ` set (cities sample_location) \<and>
   fst (setCurrentCity sample_location ''hartford'' (Inr ())) = Inr True \<and>
   map_option key (currentCity (snd (setCurrentCity sample_location ''hartford'' (Inr ()))))
     = Some ''hartford'' \<and>
   map_of (localStorage (snd (setCurrentCity sample_location ''hartford'' (Inr ()))))
       ''packslist-selected-city'' = Some ''hartford'' \<and>
   map fst (notified (snd (setCurrentCity sample_location ''hartford'' (Inr ())))) = [7]"
proof -
  have keys: "key ` set (cities sample_location) = set (map key (cities sample_location))" by simp
  have out: "''atlantis'' \<notin> key ` set (cities sample_location)"
    unfolding keys sample_location_fields by simp
  have inn: "''hartford'' \<in> key ` set (cities sample_location)"
    unfolding keys sample_location_fields by simp
  show ?thesis
    using setCurrentCity_when_write_succeeds[of "''atlantis''" sample_location "Inl StorageError"]
          setCurrentCity_when_write_succeeds[of "''hartford''" sample_location _ "()"] out inn
    by (auto simp: sample_location_fields)
qed

end
